theory Spec2Isabelle
  imports Main
begin

section \<open>Values, exceptions and the outside world\<close>

text \<open>
  The engine handles JSON documents as Python objects: \<open>None\<close>, booleans, integers,
  strings, lists and dictionaries. A dictionary keeps its keys in insertion order and a
  key occurs once, so it is an association list. Fractional numbers are left out: no
  field the engine reads is one.
\<close>

datatype json =
    JNull
  | JBool bool
  | JInt int
  | JStr string
  | JList "json list"
  | JDict "(string \<times> json) list"

text \<open>The exceptions the three modules can raise or let through.\<close>

datatype exn =
    ConnectionError string
  | Timeout string
  | RequestException string
  | JSONDecodeError
  | KeyError string
  | TypeError
  | AttributeError
  | AssertionError "json option"
  | Exception json

text \<open>
  What the \<open>requests\<close> library gives back for one HTTP exchange: it raises one of its
  transport exceptions, or it returns a response with a status code and a body. The body is
  \<open>None\<close> when it is not a JSON document, in which case \<open>r.json()\<close> raises.
\<close>

datatype http_outcome =
    ConnFail string
  | TimedOut string
  | OtherFail string
  | Response int "json option"

datatype http_method = GET | POST

text \<open>A request: method, URL, headers and the JSON payload of a POST.\<close>

datatype request = Request http_method string "(string \<times> json) list" "json option"

datatype log_level = DEBUG | INFO | WARNING | ERROR

text \<open>
  The log records of the source, one constructor for each message, with the values that
  the message formats.
\<close>

datatype log_record =
    Calling string
  | Dump json
  | Message json
  | Retrying exn int
  | StartingSession string
  | InitialMetadata json
  | StartingStage string
  | GettingSeedRound int
  | Budget json json
  | SubmittedBudget json json
  | StartingCheckpoint int
  | MetadataUnchanged
  | SessionCompleted

text \<open>The attributes of a \<open>ModelWrapper\<close> object.\<close>

record model_wrapper =
  mw_environment :: string
  working_path :: string
  mw_dataset_dir :: string
  mw_dataset_config :: string
  dataset_metadata :: json
  pair_stage :: string

text \<open>
  Everything the program does to the outside is recorded, in order: an HTTP exchange with
  its outcome, a blocking sleep, a log call (whatever the logger's level), a \<open>print\<close>,
  and each call of the session into its learner with the arguments it passes.
\<close>

datatype learner_call =
    SetStage string json
  | Fit json
  | Predict
  | MostUncertain

datatype event =
    Http request http_outcome
  | Sleep int
  | Log log_level log_record
  | Print json
  | Learner learner_call

text \<open>
  The outside world is a tape: the outcome of the \<open>n\<close>-th interaction, counted over the
  whole run. An HTTP exchange reads \<open>http\<close>. The method \<open>ModelWrapper.predict\<close> reads the
  test set from disk and draws random labels; both are outside this development, so the
  outcome of the call (the exception it raises, or the table \<open>predictions.to_dict()\<close>) is
  read from \<open>predict_outcome\<close>.
\<close>

record world =
  http :: "nat \<Rightarrow> http_outcome"
  predict_outcome :: "nat \<Rightarrow> model_wrapper \<Rightarrow> exn + json"

text \<open>
  The program state: the attributes of the shared \<open>LwllApiHandler\<close> object
  (\<open>base_url\<close>, \<open>team_secret\<close>, \<open>non_session_headers\<close>), those of the current
  \<open>Session\<close> object (\<open>metadata\<close> is \<open>None\<close> as long as the attribute does not exist),
  the \<open>ModelWrapper\<close> that \<open>Session.run\<close> creates, the trace of events and the position
  on the tape.
\<close>

record state =
  base_url :: string
  team_secret :: string
  non_session_headers :: "(string \<times> json) list"
  environment :: string
  dataset_config :: string
  task_id :: string
  dataset_dir :: string
  problem_type :: "string option"
  session_token :: json
  metadata :: "json option"
  label_cache :: json
  model :: model_wrapper
  trace :: "event list"
  clock :: nat

section \<open>Python's dictionary and object operations\<close>

primrec dict_set :: "(string \<times> 'v) list \<Rightarrow> string \<Rightarrow> 'v \<Rightarrow> (string \<times> 'v) list" where
  "dict_set [] k v = [(k, v)]"
| "dict_set (p # ps) k v = (if fst p = k then (k, v) # ps else p # dict_set ps k v)"

definition dict_del :: "(string \<times> 'v) list \<Rightarrow> string \<Rightarrow> (string \<times> 'v) list" where
  "dict_del d k = filter (\<lambda>p. fst p \<noteq> k) d"

text \<open>\<open>obj[k]\<close> with a string key.\<close>

fun py_getitem :: "json \<Rightarrow> string \<Rightarrow> exn + json" where
  "py_getitem (JDict d) k = (case map_of d k of None \<Rightarrow> Inl (KeyError k) | Some v \<Rightarrow> Inr v)"
| "py_getitem _ k = Inl TypeError"

text \<open>\<open>obj[k] = v\<close> with a string key.\<close>

fun py_setitem :: "json \<Rightarrow> string \<Rightarrow> json \<Rightarrow> exn + json" where
  "py_setitem (JDict d) k v = Inr (JDict (dict_set d k v))"
| "py_setitem _ k v = Inl TypeError"

text \<open>\<open>del obj[k]\<close> with a string key.\<close>

fun py_delitem :: "json \<Rightarrow> string \<Rightarrow> exn + json" where
  "py_delitem (JDict d) k =
     (case map_of d k of None \<Rightarrow> Inl (KeyError k) | Some v \<Rightarrow> Inr (JDict (dict_del d k)))"
| "py_delitem _ k = Inl TypeError"

text \<open>\<open>obj.get(k, default)\<close> and \<open>obj.keys()\<close>: methods of dictionaries only.\<close>

fun py_get :: "json \<Rightarrow> string \<Rightarrow> json \<Rightarrow> exn + json" where
  "py_get (JDict d) k dflt = Inr (case map_of d k of None \<Rightarrow> dflt | Some v \<Rightarrow> v)"
| "py_get _ k dflt = Inl AttributeError"

fun py_keys :: "json \<Rightarrow> exn + string list" where
  "py_keys (JDict d) = Inr (map fst d)"
| "py_keys _ = Inl AttributeError"

text \<open>The truth value of an object in a condition.\<close>

fun truthy :: "json \<Rightarrow> bool" where
  "truthy JNull = False"
| "truthy (JBool b) = b"
| "truthy (JInt i) = (i \<noteq> 0)"
| "truthy (JStr s) = (s \<noteq> [])"
| "truthy (JList xs) = (xs \<noteq> [])"
| "truthy (JDict d) = (d \<noteq> [])"

text \<open>\<open>obj > 0\<close>: defined on numbers (a boolean is a number), a \<open>TypeError\<close> otherwise.\<close>

fun py_gt_zero :: "json \<Rightarrow> exn + bool" where
  "py_gt_zero (JInt i) = Inr (0 < i)"
| "py_gt_zero (JBool b) = Inr b"
| "py_gt_zero _ = Inl TypeError"

text \<open>\<open>range(n)\<close>.\<close>

definition py_range :: "int \<Rightarrow> int list" where
  "py_range n = map int [0..<nat n]"

section \<open>Programs: state passing with exceptions\<close>

type_synonym 'a prog = "state \<Rightarrow> (exn + 'a) \<times> state"

definition ret :: "'a \<Rightarrow> 'a prog" where
  "ret x s = (Inr x, s)"

definition raise_exn :: "exn \<Rightarrow> 'a prog" where
  "raise_exn e s = (Inl e, s)"

definition lift :: "exn + 'a \<Rightarrow> 'a prog" where
  "lift r s = (r, s)"

definition gets :: "(state \<Rightarrow> 'a) \<Rightarrow> 'a prog" where
  "gets f s = (Inr (f s), s)"

definition modify :: "(state \<Rightarrow> state) \<Rightarrow> unit prog" where
  "modify f s = (Inr (), f s)"

definition bnd :: "'a prog \<Rightarrow> ('a \<Rightarrow> 'b prog) \<Rightarrow> 'b prog" where
  "bnd m f s = (case m s of (Inl e, s') \<Rightarrow> (Inl e, s') | (Inr x, s') \<Rightarrow> f x s')"

definition emit :: "event \<Rightarrow> unit prog" where
  "emit ev s = (Inr (), s\<lparr>trace := trace s @ [ev]\<rparr>)"

text \<open>A \<open>for\<close> loop over a list: the first exception leaves the loop.\<close>

primrec for_each :: "'a list \<Rightarrow> ('a \<Rightarrow> unit prog) \<Rightarrow> unit prog" where
  "for_each [] body = ret ()"
| "for_each (x # xs) body = bnd (body x) (\<lambda>_. for_each xs body)"

section \<open>\<open>utils/decorators.py\<close>: the retry decorator\<close>

text \<open>
  \<open>ExceptionToCheck\<close> is a predicate on exceptions. The loop of \<open>f_retry\<close>: while
  \<open>mtries > 1\<close>, return what \<open>f\<close> returns; on a checked exception log a warning, sleep
  \<open>mdelay\<close>, decrement \<open>mtries\<close> and multiply \<open>mdelay\<close> by \<open>backoff\<close>; any other
  exception leaves the loop. After the loop \<open>f\<close> is called once more, unprotected.
\<close>

function retry_loop ::
  "(exn \<Rightarrow> bool) \<Rightarrow> int \<Rightarrow> 'a prog \<Rightarrow> int \<Rightarrow> int \<Rightarrow> 'a prog" where
  "retry_loop ExceptionToCheck backoff f mtries mdelay s =
     (if mtries > 1 then
        (case f s of
           (Inr v, s') \<Rightarrow> (Inr v, s')
         | (Inl e, s') \<Rightarrow>
             if ExceptionToCheck e then
               retry_loop ExceptionToCheck backoff f (mtries - 1) (mdelay * backoff)
                 (s'\<lparr>trace := trace s' @ [Log WARNING (Retrying e mdelay), Sleep mdelay]\<rparr>)
             else (Inl e, s'))
      else f s)"
  by pat_completeness auto
termination
  by (relation "measure (\<lambda>(c, b, f, mtries, mdelay, s). nat mtries)") auto

declare retry_loop.simps [simp del]

definition retry :: "(exn \<Rightarrow> bool) \<Rightarrow> int \<Rightarrow> int \<Rightarrow> int \<Rightarrow> 'a prog \<Rightarrow> 'a prog" where
  "retry ExceptionToCheck tries delay backoff f = retry_loop ExceptionToCheck backoff f tries delay"

section \<open>\<open>api_handler.py\<close>: the client\<close>

text \<open>The constructor of \<open>LwllApiHandler\<close>.\<close>

definition LwllApiHandler_init :: "string \<Rightarrow> string \<Rightarrow> state \<Rightarrow> state" where
  "LwllApiHandler_init url secret s =
     s\<lparr>base_url := url, team_secret := secret,
       non_session_headers := [(''user_secret'', JStr secret)]\<rparr>"

text \<open>The tuple \<open>(ConnectionError, Timeout)\<close> given to the decorator.\<close>

fun conn_or_timeout :: "exn \<Rightarrow> bool" where
  "conn_or_timeout (ConnectionError m) = True"
| "conn_or_timeout (Timeout m) = True"
| "conn_or_timeout _ = False"

text \<open>
  \<open>requests.get\<close> and \<open>requests.post\<close>: one exchange, read from the tape and recorded.
\<close>

definition requests_call :: "world \<Rightarrow> request \<Rightarrow> (int \<times> json option) prog" where
  "requests_call w rq s =
     (let out = http w (clock s);
          s' = s\<lparr>trace := trace s @ [Http rq out], clock := Suc (clock s)\<rparr>
      in case out of
           ConnFail m \<Rightarrow> (Inl (ConnectionError m), s')
         | TimedOut m \<Rightarrow> (Inl (Timeout m), s')
         | OtherFail m \<Rightarrow> (Inl (RequestException m), s')
         | Response code body \<Rightarrow> (Inr (code, body), s'))"

text \<open>\<open>r.json()\<close>.\<close>

definition r_json :: "int \<times> json option \<Rightarrow> exn + json" where
  "r_json r = (case snd r of None \<Rightarrow> Inl JSONDecodeError | Some j \<Rightarrow> Inr j)"

definition log_call :: "log_level \<Rightarrow> log_record \<Rightarrow> unit prog" where
  "log_call lvl msg = emit (Log lvl msg)"

definition get_all_tasks_body :: "world \<Rightarrow> json prog" where
  "get_all_tasks_body w =
     bnd (log_call DEBUG (Calling ''/list_tasks'')) (\<lambda>_.
     bnd (gets base_url) (\<lambda>url.
     bnd (gets non_session_headers) (\<lambda>headers.
     bnd (requests_call w (Request GET (url @ ''/list_tasks'') headers None)) (\<lambda>r.
     bnd (lift (r_json r)) (\<lambda>response.
     if truthy response then
       bnd (log_call DEBUG (Dump response)) (\<lambda>_. lift (py_getitem response ''tasks''))
     else raise_exn (Exception (JStr ''received an empty response from api'')))))))"

definition get_all_tasks :: "world \<Rightarrow> json prog" where
  "get_all_tasks w = retry conn_or_timeout 4 3 2 (get_all_tasks_body w)"

definition get_task_metadata_body :: "world \<Rightarrow> string \<Rightarrow> json prog" where
  "get_task_metadata_body w tid =
     bnd (log_call DEBUG (Calling (''/task_metadata/'' @ tid))) (\<lambda>_.
     bnd (gets base_url) (\<lambda>url.
     bnd (gets non_session_headers) (\<lambda>headers.
     bnd (requests_call w (Request GET (url @ ''/task_metadata/'' @ tid) headers None)) (\<lambda>r.
     bnd (lift (r_json r)) (\<lambda>response.
     bnd (log_call DEBUG (Dump response)) (\<lambda>_. ret response))))))"

definition get_task_metadata :: "world \<Rightarrow> string \<Rightarrow> json prog" where
  "get_task_metadata w tid = retry conn_or_timeout 4 3 2 (get_task_metadata_body w tid)"

definition start_session_body :: "world \<Rightarrow> string \<Rightarrow> string \<Rightarrow> string \<Rightarrow> json prog" where
  "start_session_body w tid session_name data_type =
     bnd (log_call DEBUG (Calling ''/create_session'')) (\<lambda>_.
     bnd (gets base_url) (\<lambda>url.
     bnd (gets non_session_headers) (\<lambda>headers.
     bnd (requests_call w (Request POST (url @ ''/auth/create_session'') headers
            (Some (JDict [(''session_name'', JStr session_name), (''data_type'', JStr data_type),
                          (''task_id'', JStr tid)])))) (\<lambda>r.
     bnd (lift (r_json r)) (\<lambda>response.
     bnd (log_call DEBUG (Dump response)) (\<lambda>_. lift (py_getitem response ''session_token'')))))))"

definition start_session :: "world \<Rightarrow> string \<Rightarrow> string \<Rightarrow> string \<Rightarrow> json prog" where
  "start_session w tid session_name data_type =
     retry conn_or_timeout 4 3 2 (start_session_body w tid session_name data_type)"

text \<open>
  \<open>_get_session_headers\<close>: \<open>_headers\<close> is the dictionary \<open>self.non_session_headers\<close>
  itself, not a copy, so the assignment of the token changes the attribute too.
\<close>

definition get_session_headers_body :: "json \<Rightarrow> (string \<times> json) list prog" where
  "get_session_headers_body token =
     bnd (gets non_session_headers) (\<lambda>headers.
     bnd (modify (\<lambda>s. s\<lparr>non_session_headers := dict_set headers ''session_token'' token\<rparr>)) (\<lambda>_.
     gets non_session_headers))"

definition get_session_headers :: "json \<Rightarrow> (string \<times> json) list prog" where
  "get_session_headers token = retry conn_or_timeout 4 3 2 (get_session_headers_body token)"

definition get_session_metadata_body :: "world \<Rightarrow> json \<Rightarrow> json prog" where
  "get_session_metadata_body w token =
     bnd (log_call DEBUG (Calling ''/session_status'')) (\<lambda>_.
     bnd (gets base_url) (\<lambda>url.
     bnd (get_session_headers token) (\<lambda>headers.
     bnd (requests_call w (Request GET (url @ ''/session_status'') headers None)) (\<lambda>r.
     bnd (lift (r_json r)) (\<lambda>response.
     bnd (log_call DEBUG (Dump response)) (\<lambda>_. lift (py_getitem response ''Session_Status'')))))))"

definition get_session_metadata :: "world \<Rightarrow> json \<Rightarrow> json prog" where
  "get_session_metadata w token = retry conn_or_timeout 4 3 2 (get_session_metadata_body w token)"

text \<open>
  The message \<open>response.get('trace', response.get('Error', 'unknown error'))\<close>: the inner
  call is evaluated first.
\<close>

definition trace_or_error :: "json \<Rightarrow> exn + json" where
  "trace_or_error response =
     (case py_get response ''Error'' (JStr ''unknown error'') of
        Inl e \<Rightarrow> Inl e
      | Inr dflt \<Rightarrow> py_get response ''trace'' dflt)"

text \<open>
  \<open>get_seed_labels\<close> is not decorated (the decorator line is a comment). With a status
  other than 200 it logs and returns \<open>None\<close>.
\<close>

definition get_seed_labels :: "world \<Rightarrow> json \<Rightarrow> json prog" where
  "get_seed_labels w token =
     bnd (log_call DEBUG (Calling ''/seed_labels'')) (\<lambda>_.
     bnd (gets base_url) (\<lambda>url.
     bnd (get_session_headers token) (\<lambda>headers.
     bnd (requests_call w (Request GET (url @ ''/seed_labels'') headers None)) (\<lambda>r.
     bnd (lift (r_json r)) (\<lambda>response.
     if fst r = 200 then
       bnd (lift (py_keys response)) (\<lambda>keys.
       if ''Labels'' \<in> set keys then lift (py_getitem response ''Labels'')
       else
         bnd (emit (Print (JList (map JStr keys)))) (\<lambda>_.
         bnd (lift (trace_or_error response)) (\<lambda>msg. raise_exn (Exception msg))))
     else
       bnd (lift (trace_or_error response)) (\<lambda>msg.
       bnd (log_call ERROR (Message msg)) (\<lambda>_. ret JNull)))))))"

definition submit_predictions_body :: "world \<Rightarrow> json \<Rightarrow> json \<Rightarrow> json prog" where
  "submit_predictions_body w token predictions =
     bnd (log_call DEBUG (Calling ''/submit_predictions'')) (\<lambda>_.
     bnd (gets base_url) (\<lambda>url.
     bnd (get_session_headers token) (\<lambda>headers.
     bnd (requests_call w (Request POST (url @ ''/submit_predictions'') headers
            (Some (JDict [(''predictions'', predictions)])))) (\<lambda>r.
     bnd (lift (r_json r)) (\<lambda>response.
     bnd (if fst r \<noteq> 200 then
            bnd (lift (trace_or_error response)) (\<lambda>msg. log_call ERROR (Message msg))
          else ret ()) (\<lambda>_.
     bnd (log_call DEBUG (Dump response)) (\<lambda>_. ret JNull)))))))"

definition submit_predictions :: "world \<Rightarrow> json \<Rightarrow> json \<Rightarrow> json prog" where
  "submit_predictions w token predictions =
     retry conn_or_timeout 4 3 2 (submit_predictions_body w token predictions)"

definition request_labels_body :: "world \<Rightarrow> json \<Rightarrow> json \<Rightarrow> json prog" where
  "request_labels_body w token items =
     bnd (log_call DEBUG (Calling ''/query_labels'')) (\<lambda>_.
     bnd (gets base_url) (\<lambda>url.
     bnd (get_session_headers token) (\<lambda>headers.
     bnd (requests_call w (Request POST (url @ ''/query_labels'') headers
            (Some (JDict [(''example_ids'', items)])))) (\<lambda>r.
     bnd (lift (r_json r)) (\<lambda>response.
     bnd (log_call DEBUG (Dump response)) (\<lambda>_. lift (py_getitem response ''Labels'')))))))"

definition request_labels :: "world \<Rightarrow> json \<Rightarrow> json \<Rightarrow> json prog" where
  "request_labels w token items = retry conn_or_timeout 4 3 2 (request_labels_body w token items)"

section \<open>\<open>model_wrapper.py\<close>: the learner\<close>

definition ModelWrapper_init :: "string \<Rightarrow> string \<Rightarrow> string \<Rightarrow> model_wrapper" where
  "ModelWrapper_init env dir config =
     \<lparr>mw_environment = env,
      working_path = (if env \<in> set [''local'', ''dev'', ''staging'']
                      then ''development'' else ''evaluation''),
      mw_dataset_dir = dir, mw_dataset_config = config,
      dataset_metadata = JDict [], pair_stage = []\<rparr>"

definition set_stage :: "string \<Rightarrow> json \<Rightarrow> model_wrapper \<Rightarrow> model_wrapper" where
  "set_stage stage md m = m\<lparr>pair_stage := stage, dataset_metadata := md\<rparr>"

definition fit :: "model_wrapper \<Rightarrow> json \<Rightarrow> exn + unit" where
  "fit m data =
     (if pair_stage m = [] then
        Inl (Exception (JStr ''Forgot to set pair_stage before fitting''))
      else if dataset_metadata m = JDict [] then
        Inl (Exception (JStr (''Didn'' @ [CHR 0x27] @ ''t set current dataset metadata'')))
      else Inr ())"

definition most_uncertain_unlabeled_items :: "model_wrapper \<Rightarrow> json" where
  "most_uncertain_unlabeled_items m = JList []"

section \<open>\<open>session.py\<close>: the session\<close>

text \<open>The calls of the session into its \<open>model\<close>, each recorded in the trace.\<close>

definition model_set_stage :: "string \<Rightarrow> json \<Rightarrow> unit prog" where
  "model_set_stage stage md =
     bnd (emit (Learner (SetStage stage md))) (\<lambda>_.
     modify (\<lambda>s. s\<lparr>model := set_stage stage md (model s)\<rparr>))"

definition model_fit :: "json \<Rightarrow> unit prog" where
  "model_fit data =
     bnd (emit (Learner (Fit data))) (\<lambda>_.
     bnd (gets model) (\<lambda>m. lift (fit m data)))"

definition model_predict :: "world \<Rightarrow> json prog" where
  "model_predict w s =
     (predict_outcome w (clock s) (model s),
      s\<lparr>trace := trace s @ [Learner Predict], clock := Suc (clock s)\<rparr>)"

text \<open>
  The statements \<open>model.fit(self.label_cache)\<close> and
  \<open>self.api_handler.submit_predictions(self.session_token, model.predict())\<close>.
\<close>

definition fit_label_cache :: "unit prog" where
  "fit_label_cache = bnd (gets label_cache) (\<lambda>cache. model_fit cache)"

definition submit_model_predictions :: "world \<Rightarrow> unit prog" where
  "submit_model_predictions w =
     bnd (gets session_token) (\<lambda>token.
     bnd (model_predict w) (\<lambda>predictions.
     bnd (submit_predictions w token predictions) (\<lambda>_. ret ())))"

definition model_most_uncertain :: "json prog" where
  "model_most_uncertain =
     bnd (emit (Learner MostUncertain)) (\<lambda>_.
     bnd (gets model) (\<lambda>m. ret (most_uncertain_unlabeled_items m)))"

text \<open>\<open>self.metadata\<close> and \<open>self.metadata[k]\<close>.\<close>

definition the_metadata :: "json prog" where
  "the_metadata s = (case metadata s of None \<Rightarrow> (Inl AttributeError, s) | Some md \<Rightarrow> (Inr md, s))"

definition metadata_item :: "string \<Rightarrow> json prog" where
  "metadata_item k = bnd the_metadata (\<lambda>md. lift (py_getitem md k))"

text \<open>
  \<open>_refresh_metadata\<close>. The round trip \<open>json.loads(json.dumps(x))\<close> gives a copy equal to
  \<open>x\<close>, and two documents have the same \<open>json.dumps\<close> text exactly when they are equal
  with their keys in the same order, which is equality of \<open>json\<close> values.
\<close>

definition refresh_metadata :: "world \<Rightarrow> json prog" where
  "refresh_metadata w =
     bnd (gets metadata) (\<lambda>attr.
     bnd (case attr of
            None \<Rightarrow> ret (JDict [])
          | Some md \<Rightarrow> lift (py_delitem md ''date_last_interacted'')) (\<lambda>old_metadata.
     bnd (gets session_token) (\<lambda>token.
     bnd (get_session_metadata w token) (\<lambda>md.
     bnd (lift (py_delitem md ''date_last_interacted'')) (\<lambda>new_metadata.
     bnd (if old_metadata = new_metadata then log_call INFO MetadataUnchanged else ret ()) (\<lambda>_.
     ret md))))))"

text \<open>The statement \<open>self.metadata = self._refresh_metadata()\<close>.\<close>

definition assign_metadata :: "world \<Rightarrow> unit prog" where
  "assign_metadata w =
     bnd (refresh_metadata w) (\<lambda>md. modify (\<lambda>s. s\<lparr>metadata := Some md\<rparr>))"

text \<open>
  The constructor of \<open>Session\<close>. The name of the session contains the time of day, a
  parameter here.
\<close>

definition Session_init ::
  "world \<Rightarrow> string \<Rightarrow> string \<Rightarrow> string \<Rightarrow> string \<Rightarrow> string option \<Rightarrow> string \<Rightarrow> string \<Rightarrow> string
     \<Rightarrow> unit prog" where
  "Session_init w env config tid dir ptype name_prefix name_postfix now =
     bnd (modify (\<lambda>s. s\<lparr>environment := env, dataset_config := config, task_id := tid,
                         dataset_dir := dir, problem_type := ptype, session_token := JNull,
                         metadata := None, label_cache := JNull\<rparr>)) (\<lambda>_.
     bnd (log_call INFO (StartingSession
            (name_prefix @ '' - Run starting at '' @ now @ '' - '' @ name_postfix))) (\<lambda>_.
     bnd (start_session w tid
            (name_prefix @ '' - Run starting at '' @ now @ '' - '' @ name_postfix) config) (\<lambda>token.
     bnd (modify (\<lambda>s. s\<lparr>session_token := token\<rparr>)) (\<lambda>_.
     bnd (assign_metadata w) (\<lambda>_.
     bnd (the_metadata) (\<lambda>md.
     bnd (log_call DEBUG (InitialMetadata md)) (\<lambda>_.
     modify (\<lambda>s. s\<lparr>label_cache := JDict []\<rparr>))))))))"

definition add_to_label_cache :: "json \<Rightarrow> bool \<Rightarrow> unit prog" where
  "add_to_label_cache labels seed_round = ret ()"

definition request_label_loop :: "world \<Rightarrow> unit prog" where
  "request_label_loop w =
     bnd model_most_uncertain (\<lambda>samples_to_request.
     bnd (gets session_token) (\<lambda>token.
     bnd (request_labels w token samples_to_request) (\<lambda>labels.
     add_to_label_cache labels False)))"

text \<open>The log call that formats the two budget fields of the metadata.\<close>

definition log_budget :: "(json \<Rightarrow> json \<Rightarrow> log_record) \<Rightarrow> unit prog" where
  "log_budget msg =
     bnd (metadata_item ''budget_used'') (\<lambda>used.
     bnd (metadata_item ''budget_left_until_checkpoint'') (\<lambda>left.
     log_call INFO (msg used left)))"

text \<open>The body of the loop over the four seed rounds.\<close>

definition seed_round :: "world \<Rightarrow> int \<Rightarrow> unit prog" where
  "seed_round w i =
     bnd (log_call INFO (GettingSeedRound (i + 1))) (\<lambda>_.
     bnd (gets session_token) (\<lambda>token.
     bnd (get_seed_labels w token) (\<lambda>seed_labels.
     bnd (assign_metadata w) (\<lambda>_.
     bnd (log_budget Budget) (\<lambda>_.
     bnd (add_to_label_cache seed_labels True) (\<lambda>_.
     bnd fit_label_cache (\<lambda>_.
     bnd (submit_model_predictions w) (\<lambda>_.
     bnd (assign_metadata w) (\<lambda>_.
     log_budget SubmittedBudget)))))))))"

text \<open>
  The \<open>while\<close> loop of a checkpoint. Its condition reads the metadata, its body ends
  with the assignment of 0 to \<open>budget_left_until_checkpoint\<close>.
\<close>

definition budget_guard :: "bool prog" where
  "budget_guard =
     bnd (metadata_item ''budget_left_until_checkpoint'') (\<lambda>left. lift (py_gt_zero left))"

definition set_budget_zero :: "unit prog" where
  "set_budget_zero =
     bnd the_metadata (\<lambda>md.
     bnd (lift (py_setitem md ''budget_left_until_checkpoint'' (JInt 0))) (\<lambda>md'.
     modify (\<lambda>s. s\<lparr>metadata := Some md'\<rparr>)))"

definition budget_step :: "world \<Rightarrow> unit prog" where
  "budget_step w =
     bnd (request_label_loop w) (\<lambda>_.
     bnd fit_label_cache (\<lambda>_.
     bnd (assign_metadata w) (\<lambda>_.
     log_budget SubmittedBudget)))"

definition budget_iteration :: "world \<Rightarrow> unit prog" where
  "budget_iteration w = bnd (budget_step w) (\<lambda>_. set_budget_zero)"

function budget_loop :: "world \<Rightarrow> unit prog" where
  "budget_loop w s =
     (case budget_guard s of
        (Inl e, s1) \<Rightarrow> (Inl e, s1)
      | (Inr go, s1) \<Rightarrow>
          if go then
            (case budget_iteration w s1 of
               (Inl e, s2) \<Rightarrow> (Inl e, s2)
             | (Inr u, s2) \<Rightarrow> budget_loop w s2)
          else (Inr (), s1))"
  by pat_completeness auto
termination
proof (relation "measure (\<lambda>(w, s). if fst (budget_guard s) = Inr True then 1 else 0)")
  show "wf (measure (\<lambda>(w, s). if fst (budget_guard s) = Inr True then 1 else 0 :: nat))"
    by simp
next
  fix w :: world and s s1 s2 :: state and r1 :: "exn + bool" and go :: bool
    and r2 :: "exn + unit" and u :: unit
  assume g: "(r1, s1) = budget_guard s" and r1: "r1 = Inr go" and go: "go"
    and it: "(r2, s2) = budget_iteration w s1" and r2: "r2 = Inr u"
  have same: "map_of (dict_set d k v) k = Some v"
    for d :: "(string \<times> json) list" and k v
    by (induction d) auto
  from it r2 have "budget_iteration w s1 = (Inr u, s2)"
    by simp
  then obtain s0 where "set_budget_zero s0 = (Inr u, s2)"
    by (auto simp: budget_iteration_def bnd_def split: prod.splits sum.splits)
  then obtain md md' where set: "py_setitem md ''budget_left_until_checkpoint'' (JInt 0) = Inr md'"
    and s2: "s2 = s0\<lparr>metadata := Some md'\<rparr>"
    by (auto simp: set_budget_zero_def bnd_def the_metadata_def lift_def modify_def
        split: option.splits sum.splits)
  from set obtain d where "md' = JDict (dict_set d ''budget_left_until_checkpoint'' (JInt 0))"
    by (cases md) auto
  with s2 have "budget_guard s2 = (Inr False, s2)"
    by (simp add: budget_guard_def metadata_item_def bnd_def the_metadata_def lift_def same)
  moreover from g [symmetric] r1 go have "fst (budget_guard s) = Inr True"
    by simp
  ultimately show "((w, s2), (w, s))
      \<in> measure (\<lambda>(w, s). if fst (budget_guard s) = Inr True then 1 else 0 :: nat)"
    by simp
qed

declare budget_loop.simps [simp del]

text \<open>
  The check at the end of a checkpoint: \<open>if i == range_lim and model.pair_stage == 'base'\<close>
  guards an \<open>assert\<close> without a message.
\<close>

definition stage_check :: "int \<Rightarrow> int \<Rightarrow> unit prog" where
  "stage_check i range_lim =
     bnd (gets model) (\<lambda>m.
     if i = range_lim \<and> pair_stage m = ''base'' then
       bnd (metadata_item ''pair_stage'') (\<lambda>stage.
       if stage = JStr ''adaptation'' then ret () else raise_exn (AssertionError None))
     else ret ())"

text \<open>The body of the loop over the checkpoints.\<close>

definition checkpoint :: "world \<Rightarrow> int \<Rightarrow> int \<Rightarrow> unit prog" where
  "checkpoint w range_lim i =
     bnd (gets problem_type) (\<lambda>ptype.
     bnd (if ptype = Some ''machine_translation'' then log_call INFO (StartingCheckpoint i)
          else log_call INFO (StartingCheckpoint (i + 5))) (\<lambda>_.
     bnd (budget_loop w) (\<lambda>_.
     bnd (submit_model_predictions w) (\<lambda>_.
     bnd (assign_metadata w) (\<lambda>_.
     stage_check i range_lim)))))"

text \<open>The body of the loop over the two stages.\<close>

definition stage_body :: "world \<Rightarrow> int \<Rightarrow> string \<Rightarrow> unit prog" where
  "stage_body w range_lim stage =
     bnd (log_call INFO (StartingStage stage)) (\<lambda>_.
     bnd (metadata_item ''current_dataset'') (\<lambda>current_dataset.
     bnd (model_set_stage stage current_dataset) (\<lambda>_.
     bnd (gets problem_type) (\<lambda>ptype.
     bnd (if ptype \<noteq> Some ''machine_translation'' then for_each (py_range 4) (seed_round w)
          else ret ()) (\<lambda>_.
     for_each (py_range range_lim) (checkpoint w range_lim))))))"

text \<open>
  \<open>Session.run\<close> up to the end of the loop over the stages, then the whole method: the
  \<open>assert\<close> on the \<open>active\<close> field carries the metadata in its message. The elapsed time
  that the last log call formats is left out.
\<close>

definition run_stages :: "world \<Rightarrow> unit prog" where
  "run_stages w =
     bnd (modify (\<lambda>s. s\<lparr>model := ModelWrapper_init (environment s) (dataset_dir s)
                                   (dataset_config s)\<rparr>)) (\<lambda>_.
     bnd (gets problem_type) (\<lambda>ptype.
     for_each [''base'', ''adaptation'']
       (stage_body w (if ptype = Some ''machine_translation'' then 8 else 4))))"

definition assert_complete :: "unit prog" where
  "assert_complete =
     bnd (metadata_item ''active'') (\<lambda>active.
     if active = JStr ''Complete'' then ret ()
     else bnd the_metadata (\<lambda>md. raise_exn (AssertionError (Some md))))"

definition run :: "world \<Rightarrow> unit prog" where
  "run w =
     bnd (run_stages w) (\<lambda>_.
     bnd assert_complete (\<lambda>_.
     log_call INFO SessionCompleted))"

section \<open>What a trace shows\<close>

text \<open>The URL and the headers of every request sent, in order.\<close>

definition sent_headers :: "event list \<Rightarrow> (string \<times> (string \<times> json) list) list" where
  "sent_headers t =
     concat (map (\<lambda>ev. case ev of Http (Request m url h b) out \<Rightarrow> [(url, h)] | _ \<Rightarrow> []) t)"

text \<open>The HTTP exchanges, the delays slept and the number of \<open>unchanged\<close> records.\<close>

fun is_http :: "event \<Rightarrow> bool" where
  "is_http (Http rq out) = True"
| "is_http _ = False"

definition http_events :: "event list \<Rightarrow> event list" where
  "http_events t = filter is_http t"

definition sleeps :: "event list \<Rightarrow> int list" where
  "sleeps t = concat (map (\<lambda>ev. case ev of Sleep d \<Rightarrow> [d] | _ \<Rightarrow> []) t)"

definition unchanged_count :: "event list \<Rightarrow> nat" where
  "unchanged_count t = length (filter (\<lambda>ev. ev = Log INFO MetadataUnchanged) t)"

section \<open>A service that answers every request\<close>

text \<open>
  A service for the examples: every request is answered at once with status 200 and one
  document that has the field each endpoint is read for. The session it reports stays in
  stage \<open>base\<close>, has a budget of 5 left, and its \<open>active\<close> field is the parameter.
\<close>

definition status_doc :: "string \<Rightarrow> int \<Rightarrow> json" where
  "status_doc active left =
     JDict [(''active'', JStr active), (''pair_stage'', JStr ''base''),
            (''budget_used'', JInt 0), (''budget_left_until_checkpoint'', JInt left),
            (''date_last_interacted'', JStr ''10:00''),
            (''current_dataset'', JDict [(''name'', JStr ''mnist'')])]"

definition service_body :: "string \<Rightarrow> json" where
  "service_body active =
     JDict [(''Session_Status'', status_doc active 5), (''Labels'', JList []),
            (''session_token'', JStr ''tok''), (''tasks'', JList [JStr ''t1''])]"

definition service :: "string \<Rightarrow> world" where
  "service active =
     \<lparr>http = (\<lambda>n. Response 200 (Some (service_body active))),
      predict_outcome = (\<lambda>n m. Inr (JDict []))\<rparr>"

text \<open>The service whose session is \<open>Complete\<close>, and the one whose session never is.\<close>

definition demo_metadata :: json where
  "demo_metadata = status_doc ''Complete'' 5"

definition demo_world :: world where
  "demo_world = service ''Complete''"

definition stuck_world :: world where
  "stuck_world = service ''Active''"

text \<open>The state after the constructors of the handler and of a session on that service.\<close>

definition demo_state :: state where
  "demo_state =
     \<lparr>base_url = ''u'', team_secret = ''k'',
      non_session_headers = [(''user_secret'', JStr ''k''), (''session_token'', JStr ''tok'')],
      environment = ''dev'', dataset_config = ''sample'', task_id = ''t1'', dataset_dir = ''d'',
      problem_type = Some ''image_classification'', session_token = JStr ''tok'',
      metadata = Some demo_metadata, label_cache = JDict [],
      model = ModelWrapper_init ''dev'' ''d'' ''sample'', trace = [], clock = 0\<rparr>"

text \<open>A handler just constructed, before any call.\<close>

definition fresh_handler :: state where
  "fresh_handler = LwllApiHandler_init ''u'' ''k'' demo_state"

section \<open>Invariants of programs\<close>

text \<open>
  A program preserves a property of the state when the property holds in the state it
  ends in, whether it returns or raises, if it held in the state it started from.
\<close>

definition preserves :: "(state \<Rightarrow> bool) \<Rightarrow> 'a prog \<Rightarrow> bool" where
  "preserves I m \<longleftrightarrow> (\<forall>s. I s \<longrightarrow> I (snd (m s)))"

text \<open>
  A property is stable for a class of events when it survives an event of the class being
  recorded and any change of the clock, of the header dictionary, of the stored metadata
  and of the model.
\<close>

definition stable :: "(event \<Rightarrow> bool) \<Rightarrow> (state \<Rightarrow> bool) \<Rightarrow> bool" where
  "stable A I \<longleftrightarrow> (\<forall>s. I s \<longrightarrow>
      (\<forall>ev. A ev \<longrightarrow> I (s\<lparr>trace := trace s @ [ev]\<rparr>)) \<and>
      (\<forall>c. I (s\<lparr>clock := c\<rparr>)) \<and>
      (\<forall>h. I (s\<lparr>non_session_headers := h\<rparr>)) \<and>
      (\<forall>md. I (s\<lparr>metadata := md\<rparr>)) \<and>
      (\<forall>m. I (s\<lparr>model := m\<rparr>)))"

text \<open>
  A program takes \<open>P\<close> to \<open>Q\<close> when every return from a state with \<open>P\<close> gives a value
  and a state with \<open>Q\<close>.
\<close>

definition hoare :: "(state \<Rightarrow> bool) \<Rightarrow> 'a prog \<Rightarrow> ('a \<Rightarrow> state \<Rightarrow> bool) \<Rightarrow> bool" where
  "hoare P m Q \<longleftrightarrow> (\<forall>s x s'. P s \<longrightarrow> m s = (Inr x, s') \<longrightarrow> Q x s')"

text \<open>A URL of the endpoint \<open>ep\<close> ends with its path.\<close>

definition ends_with :: "string \<Rightarrow> string \<Rightarrow> bool" where
  "ends_with ep url \<longleftrightarrow> take (length ep) (rev url) = rev ep"

text \<open>
  The events of a client operation on the endpoint \<open>ep\<close>: exchanges with that endpoint,
  sleeps, prints and log records of a level other than \<open>INFO\<close>.
\<close>

fun client_events :: "string \<Rightarrow> event \<Rightarrow> bool" where
  "client_events ep (Http (Request m url h b) out) = ends_with ep url"
| "client_events ep (Log l r) = (l \<noteq> INFO)"
| "client_events ep (Sleep d) = True"
| "client_events ep (Print j) = True"
| "client_events ep (Learner c) = False"

text \<open>
  The records that mark the progress of \<open>Session.run\<close>: the start of a stage, of a seed
  round and of a checkpoint.
\<close>

fun is_marker :: "event \<Rightarrow> bool" where
  "is_marker (Log INFO (StartingStage stage)) = True"
| "is_marker (Log INFO (GettingSeedRound i)) = True"
| "is_marker (Log INFO (StartingCheckpoint i)) = True"
| "is_marker _ = False"

definition markers :: "event list \<Rightarrow> event list" where
  "markers t = filter is_marker t"

text \<open>The events of a run other than the markers and the calls of \<open>fit\<close>.\<close>

fun quiet :: "event \<Rightarrow> bool" where
  "quiet (Learner (Fit c)) = False"
| "quiet ev = (\<not> is_marker ev)"

text \<open>The session that the constructor builds on the demo service with a fresh handler.\<close>

definition demo_session :: state where
  "demo_session =
     snd (Session_init demo_world ''dev'' ''sample'' ''t1'' ''d'' (Some ''image_classification'')
            ''a'' ''b'' ''now'' fresh_handler)"

text \<open>
  The markers that one stage of a session with problem type \<open>ptype\<close> is to record: for
  machine translation no seed round and eight checkpoints, numbered from 0; otherwise four
  seed rounds, numbered from 1, then four checkpoints, numbered from 5.
\<close>

definition stage_markers :: "string option \<Rightarrow> string \<Rightarrow> event list" where
  "stage_markers ptype stage =
     Log INFO (StartingStage stage) #
     (if ptype = Some ''machine_translation''
      then map (\<lambda>i. Log INFO (StartingCheckpoint i)) [0, 1, 2, 3, 4, 5, 6, 7]
      else map (\<lambda>i. Log INFO (GettingSeedRound i)) [1, 2, 3, 4]
         @ map (\<lambda>i. Log INFO (StartingCheckpoint i)) [5, 6, 7, 8])"

text \<open>
  A program records the markers \<open>exp\<close> for the problem type \<open>p\<close>: it leaves the problem
  type alone, the markers it adds to the trace are an initial part of \<open>exp\<close>, and all of
  \<open>exp\<close> when it returns.
\<close>

definition marks :: "string option \<Rightarrow> 'a prog \<Rightarrow> event list \<Rightarrow> bool" where
  "marks p m exp \<longleftrightarrow>
     (\<forall>s. problem_type s = p \<longrightarrow>
        problem_type (snd (m s)) = p \<and>
        (\<exists>done rest. markers (trace (snd (m s))) = markers (trace s) @ done \<and> exp = done @ rest
            \<and> ((\<exists>x. fst (m s) = Inr x) \<longrightarrow> rest = [])))"

text \<open>
  The states in which a run on such a service carries on: the stored metadata is the
  document of the service, with its budget or with the budget set to 0, and (for
  \<open>fit_ready\<close>) the model has been told its stage.
\<close>

definition ready :: "string \<Rightarrow> state \<Rightarrow> bool" where
  "ready active s \<longleftrightarrow>
     metadata s = Some (status_doc active 5) \<or> metadata s = Some (status_doc active 0)"

definition fit_ready :: "string \<Rightarrow> state \<Rightarrow> bool" where
  "fit_ready active s \<longleftrightarrow>
     ready active s \<and> pair_stage (model s) \<noteq> [] \<and> dataset_metadata (model s) \<noteq> JDict []"

text \<open>A program succeeds under \<open>I\<close>: from a state with \<open>I\<close> it returns, in a state with \<open>I\<close>.\<close>

definition succeeds :: "(state \<Rightarrow> bool) \<Rightarrow> 'a prog \<Rightarrow> bool" where
  "succeeds I m \<longleftrightarrow> (\<forall>s. I s \<longrightarrow> (\<exists>x. fst (m s) = Inr x) \<and> I (snd (m s)))"

text \<open>
  The metadata that the last answered \<open>session_status\<close> request of a trace delivered:
  the \<open>Session_Status\<close> field of its document.
\<close>

fun fetched :: "event \<Rightarrow> json option" where
  "fetched (Http (Request m url h b) (Response code (Some doc))) =
     (if ends_with ''/session_status'' url then
        (case py_getitem doc ''Session_Status'' of Inl e \<Rightarrow> None | Inr md \<Rightarrow> Some md)
      else None)"
| "fetched _ = None"

definition last_fetched :: "event list \<Rightarrow> json option" where
  "last_fetched t = foldl (\<lambda>acc ev. case fetched ev of None \<Rightarrow> acc | Some md \<Rightarrow> Some md) None t"

text \<open>A session on the service whose session never completes.\<close>

definition stuck_state :: state where
  "stuck_state = demo_state\<lparr>metadata := Some (status_doc ''Active'' 5)\<rparr>"

text \<open>
  The message of the service in a document without labels: its \<open>trace\<close> field, failing
  that its \<open>Error\<close> field, failing that the text the source supplies.
\<close>

definition service_message :: "(string \<times> json) list \<Rightarrow> json" where
  "service_message d =
     (case map_of d ''trace'' of
        Some t \<Rightarrow> t
      | None \<Rightarrow> (case map_of d ''Error'' of Some e \<Rightarrow> e | None \<Rightarrow> JStr ''unknown error''))"

text \<open>The exchange of \<open>get_seed_labels\<close> in state \<open>s\<close> with the outcome \<open>out\<close>.\<close>

definition seed_labels_exchange :: "state \<Rightarrow> http_outcome \<Rightarrow> event" where
  "seed_labels_exchange s out =
     Http (Request GET (base_url s @ ''/seed_labels'')
             (dict_set (non_session_headers s) ''session_token'' (session_token s)) None) out"

text \<open>A service that answers every request with status 200 and a document without labels.\<close>

definition broken_world :: world where
  "broken_world =
     \<lparr>http = (\<lambda>n. Response 200 (Some (JDict [(''trace'', JStr ''boom'')]))),
      predict_outcome = (\<lambda>n m. Inr (JDict []))\<rparr>"

text \<open>
  A service whose session document changes in its time stamp only, and a session that has
  stored a different document before.
\<close>

definition ticking_world :: world where
  "ticking_world =
     \<lparr>http = (\<lambda>n. Response 200 (Some (JDict [(''Session_Status'',
         JDict [(''active'', JStr ''Active''), (''date_last_interacted'', JInt (int n))])]))),
      predict_outcome = (\<lambda>n m. Inr (JDict []))\<rparr>"

definition ticking_state :: state where
  "ticking_state =
     demo_state\<lparr>metadata := Some (JDict [(''active'', JStr ''Pending''),
                                            (''date_last_interacted'', JInt 0)])\<rparr>"

text \<open>
  What a trace shows of the work of a checkpoint: the calls into the learner, and the
  requests to the endpoints of a session that the service has answered.
\<close>

datatype call = Asked learner_call | Answered string

definition session_endpoints :: "string list" where
  "session_endpoints =
     [''/session_status'', ''/seed_labels'', ''/submit_predictions'', ''/query_labels'']"

fun observe :: "event \<Rightarrow> call list" where
  "observe (Learner c) = [Asked c]"
| "observe (Http (Request m url h b) (Response code doc)) =
     (case find (\<lambda>ep. ends_with ep url) session_endpoints of
        None \<Rightarrow> []
      | Some ep \<Rightarrow> [Answered ep])"
| "observe _ = []"

definition calls :: "event list \<Rightarrow> call list" where
  "calls t = concat (map observe t)"

text \<open>The demo session after \<open>set_stage\<close>, as at the start of a checkpoint.\<close>

definition staged_state :: state where
  "staged_state =
     demo_state\<lparr>model := set_stage ''base'' (JDict [(''name'', JStr ''mnist'')])
                              (model demo_state)\<rparr>"

text \<open>
  The operations of the client, to speak of all of them at once: \<open>attempt\<close> is the
  function as written, \<open>call_op\<close> the function as decorated. \<open>get_seed_labels\<close> is the
  one without the decorator.
\<close>

datatype client_op =
    ListTasks
  | TaskMetadata string
  | StartSession string string string
  | SessionMetadata json
  | SeedLabels json
  | SubmitPredictions json json
  | RequestLabels json json

fun attempt :: "world \<Rightarrow> client_op \<Rightarrow> json prog" where
  "attempt w ListTasks = get_all_tasks_body w"
| "attempt w (TaskMetadata tid) = get_task_metadata_body w tid"
| "attempt w (StartSession tid session_name data_type) =
     start_session_body w tid session_name data_type"
| "attempt w (SessionMetadata token) = get_session_metadata_body w token"
| "attempt w (SeedLabels token) = get_seed_labels w token"
| "attempt w (SubmitPredictions token predictions) =
     submit_predictions_body w token predictions"
| "attempt w (RequestLabels token items) = request_labels_body w token items"

fun call_op :: "world \<Rightarrow> client_op \<Rightarrow> json prog" where
  "call_op w ListTasks = get_all_tasks w"
| "call_op w (TaskMetadata tid) = get_task_metadata w tid"
| "call_op w (StartSession tid session_name data_type) =
     start_session w tid session_name data_type"
| "call_op w (SessionMetadata token) = get_session_metadata w token"
| "call_op w (SeedLabels token) = get_seed_labels w token"
| "call_op w (SubmitPredictions token predictions) = submit_predictions w token predictions"
| "call_op w (RequestLabels token items) = request_labels w token items"

fun wrapped :: "client_op \<Rightarrow> bool" where
  "wrapped (SeedLabels token) = False"
| "wrapped _ = True"

text \<open>
  The transport failures that the retry policy covers, and the exception that \<open>requests\<close>
  raises for a failure.
\<close>

fun transient :: "http_outcome \<Rightarrow> bool" where
  "transient (ConnFail m) = True"
| "transient (TimedOut m) = True"
| "transient _ = False"

fun raised :: "http_outcome \<Rightarrow> exn option" where
  "raised (ConnFail m) = Some (ConnectionError m)"
| "raised (TimedOut m) = Some (Timeout m)"
| "raised (OtherFail m) = Some (RequestException m)"
| "raised (Response code doc) = None"

text \<open>The delays of \<open>k\<close> retries: the first is \<open>d\<close>, each next one \<open>b\<close> times longer.\<close>

fun delays :: "nat \<Rightarrow> int \<Rightarrow> int \<Rightarrow> int list" where
  "delays 0 d b = []"
| "delays (Suc k) d b = d # delays k (d * b) b"

text \<open>
  An attempt of a remote operation: it makes one exchange and does not sleep; when the
  exchange fails it raises the exception of the failure; and what it returns or raises
  depends on the state through the position on the tape only.
\<close>

definition remote_attempt :: "world \<Rightarrow> 'a prog \<Rightarrow> bool" where
  "remote_attempt w f \<longleftrightarrow>
     (\<forall>s. clock (snd (f s)) = Suc (clock s)
          \<and> sleeps (trace (snd (f s))) = sleeps (trace s)
          \<and> length (http_events (trace (snd (f s)))) = Suc (length (http_events (trace s)))
          \<and> (\<forall>e. raised (http w (clock s)) = Some e \<longrightarrow> fst (f s) = Inl e)
          \<and> (\<forall>s'. clock s' = clock s \<longrightarrow> fst (f s') = fst (f s)))"

text \<open>A service that fails to connect twice, times out once and then answers.\<close>

definition flaky_world :: world where
  "flaky_world =
     \<lparr>http = (\<lambda>n. if n < 2 then ConnFail ''refused'' else if n = 2 then TimedOut ''slow''
                   else Response 200 (Some (service_body ''Complete''))),
      predict_outcome = (\<lambda>n m. Inr (JDict []))\<rparr>"

text \<open>A service that is down.\<close>

definition dead_world :: world where
  "dead_world =
     \<lparr>http = (\<lambda>n. if n < 3 then ConnFail ''refused'' else TimedOut ''slow''),
      predict_outcome = (\<lambda>n m. Inr (JDict []))\<rparr>"

section \<open>Basic facts\<close>

lemmas prog_defs =
  bnd_def ret_def raise_exn_def lift_def gets_def modify_def emit_def log_call_def

lemma get_session_headers_eq:
  "get_session_headers token s =
     (Inr (dict_set (non_session_headers s) ''session_token'' token),
      s\<lparr>non_session_headers := dict_set (non_session_headers s) ''session_token'' token\<rparr>)"
  by (simp add: get_session_headers_def retry_def retry_loop.simps get_session_headers_body_def
      prog_defs)

lemma py_range_4: "py_range 4 = [0, 1, 2, 3]"
  by (simp add: py_range_def upt_rec)

section \<open>The learner's precondition\<close>

text \<open>
  Claim C9. On a \<open>ModelWrapper\<close> on which \<open>set_stage\<close> has not been called, \<open>fit\<close>
  raises its exception. After \<open>set_stage\<close> with a stage other than the empty string and
  dataset metadata other than the empty dictionary, on any instance, \<open>fit\<close> returns without
  raising.
\<close>

theorem fit_requires_set_stage:
  "fit (ModelWrapper_init env dir config) data
     = Inl (Exception (JStr ''Forgot to set pair_stage before fitting''))
   \<and> (stage \<noteq> [] \<and> md \<noteq> JDict [] \<longrightarrow> fit (set_stage stage md m) data = Inr ())"
  by (simp add: fit_def ModelWrapper_init_def set_stage_def)

theorem fit_requires_set_stage_witness:
  "''base'' \<noteq> [] \<and> JDict [(''name'', JStr ''mnist'')] \<noteq> JDict []
   \<and> fit (ModelWrapper_init ''dev'' ''d'' ''sample'') (JDict [])
       = Inl (Exception (JStr ''Forgot to set pair_stage before fitting''))
   \<and> fit (set_stage ''base'' (JDict [(''name'', JStr ''mnist'')])
            (ModelWrapper_init ''dev'' ''d'' ''sample'')) (JDict []) = Inr ()"
  using fit_requires_set_stage [of "''dev''" "''d''" "''sample''" "JDict []" "''base''"
      "JDict [(''name'', JStr ''mnist'')]" "ModelWrapper_init ''dev'' ''d'' ''sample''"]
  by simp

section \<open>Authentication headers\<close>

text \<open>
  Claim C5. Two sessions are opened one after the other on one handler, as
  \<open>Workflow._session_loop\<close> does. The first \<open>create_session\<close> request carries the team
  secret alone. The second one, a call that is not scoped to a session, carries the token of
  the first session as well: \<open>_get_session_headers\<close> has written it into
  \<open>non_session_headers\<close>.
\<close>

theorem second_session_start_carries_token:
  "sent_headers (trace (snd (bnd
      (Session_init demo_world ''dev'' ''sample'' ''t1'' ''d'' (Some ''image_classification'')
         ''a'' ''b'' ''now'')
      (\<lambda>_. Session_init demo_world ''dev'' ''sample'' ''t2'' ''d'' (Some ''image_classification'')
         ''a'' ''b'' ''now'')
      fresh_handler)))
   = [(''u/auth/create_session'', [(''user_secret'', JStr ''k'')]),
      (''u/session_status'', [(''user_secret'', JStr ''k''), (''session_token'', JStr ''tok'')]),
      (''u/auth/create_session'',
         [(''user_secret'', JStr ''k''), (''session_token'', JStr ''tok'')]),
      (''u/session_status'', [(''user_secret'', JStr ''k''), (''session_token'', JStr ''tok'')])]"
  by (simp add: Session_init_def prog_defs fresh_handler_def LwllApiHandler_init_def
      demo_state_def start_session_def retry_def retry_loop.simps start_session_body_def
      requests_call_def demo_world_def service_def service_body_def r_json_def assign_metadata_def
      refresh_metadata_def get_session_metadata_def get_session_metadata_body_def
      get_session_headers_eq the_metadata_def demo_metadata_def status_doc_def sent_headers_def
      dict_del_def)

section \<open>Rules for invariants\<close>

lemma preservesI: "(\<And>s. I s \<Longrightarrow> I (snd (m s))) \<Longrightarrow> preserves I m"
  by (simp add: preserves_def)

lemma preservesD: "preserves I m \<Longrightarrow> I s \<Longrightarrow> I (snd (m s))"
  by (simp add: preserves_def)

lemma stable_trace: "stable A I \<Longrightarrow> I s \<Longrightarrow> A ev \<Longrightarrow> I (s\<lparr>trace := trace s @ [ev]\<rparr>)"
  by (simp add: stable_def)

lemma stable_clock: "stable A I \<Longrightarrow> I s \<Longrightarrow> I (s\<lparr>clock := c\<rparr>)"
  by (simp add: stable_def)

lemma stable_headers: "stable A I \<Longrightarrow> I s \<Longrightarrow> I (s\<lparr>non_session_headers := h\<rparr>)"
  by (simp add: stable_def)

lemma stable_metadata: "stable A I \<Longrightarrow> I s \<Longrightarrow> I (s\<lparr>metadata := md\<rparr>)"
  by (simp add: stable_def)

lemma stable_model: "stable A I \<Longrightarrow> I s \<Longrightarrow> I (s\<lparr>model := m\<rparr>)"
  by (simp add: stable_def)

lemma stable_subclass: "stable A I \<Longrightarrow> (\<And>ev. B ev \<Longrightarrow> A ev) \<Longrightarrow> stable B I"
  by (simp add: stable_def)

lemma preserves_ret: "preserves I (ret x)"
  by (simp add: preserves_def ret_def)

lemma preserves_raise: "preserves I (raise_exn e)"
  by (simp add: preserves_def raise_exn_def)

lemma preserves_lift: "preserves I (lift r)"
  by (simp add: preserves_def lift_def)

lemma preserves_gets: "preserves I (gets f)"
  by (simp add: preserves_def gets_def)

lemma preserves_the_metadata: "preserves I the_metadata"
  by (simp add: preserves_def the_metadata_def split: option.splits)

lemma preserves_bnd:
  assumes "preserves I m" and "\<And>x. preserves I (f x)"
  shows "preserves I (bnd m f)"
proof (rule preservesI)
  fix s assume "I s"
  with assms(1) have 1: "I (snd (m s))" by (rule preservesD)
  show "I (snd (bnd m f s))"
  proof (cases "m s")
    case (Pair r s1)
    with 1 have s1: "I s1" by simp
    show ?thesis
    proof (cases r)
      case (Inl e)
      with Pair s1 show ?thesis by (simp add: bnd_def)
    next
      case (Inr x)
      from assms(2) s1 have "I (snd (f x s1))" by (rule preservesD)
      with Pair Inr show ?thesis by (simp add: bnd_def)
    qed
  qed
qed

lemma preserves_if:
  "preserves I a \<Longrightarrow> preserves I b \<Longrightarrow> preserves I (if c then a else b)"
  by simp

lemma preserves_metadata_item: "preserves I (metadata_item k)"
  unfolding metadata_item_def by (intro preserves_bnd preserves_the_metadata preserves_lift)

lemma preserves_for_each:
  assumes "\<And>x. preserves I (body x)"
  shows "preserves I (for_each xs body)"
  by (induction xs) (auto intro: preserves_ret preserves_bnd assms)

lemma preserves_emit: "stable A I \<Longrightarrow> A ev \<Longrightarrow> preserves I (emit ev)"
  by (simp add: preserves_def emit_def stable_trace)

lemma preserves_log_call: "stable A I \<Longrightarrow> A (Log l r) \<Longrightarrow> preserves I (log_call l r)"
  by (simp add: log_call_def preserves_emit)

lemma preserves_requests_call:
  assumes "stable A I" and "\<And>out. A (Http rq out)"
  shows "preserves I (requests_call w rq)"
proof (rule preservesI)
  fix s assume "I s"
  with assms have "I (s\<lparr>trace := trace s @ [Http rq (http w (clock s))]\<rparr>)"
    by (simp add: stable_trace)
  with assms(1)
  have "I (s\<lparr>trace := trace s @ [Http rq (http w (clock s))], clock := Suc (clock s)\<rparr>)"
    by (rule stable_clock)
  then show "I (snd (requests_call w rq s))"
    by (cases "http w (clock s)") (simp_all add: requests_call_def Let_def)
qed

lemma preserves_retry_loop:
  assumes st: "stable A I" and log: "\<And>l r. l \<noteq> INFO \<Longrightarrow> A (Log l r)" and sl: "\<And>d. A (Sleep d)"
  shows "preserves I f \<Longrightarrow> I s \<Longrightarrow> I (snd (retry_loop chk b f n d s))"
proof (induction chk b f n d s rule: retry_loop.induct)
  case (1 chk b f n d s)
  from \<open>preserves I f\<close> \<open>I s\<close> have fs: "I (snd (f s))" by (rule preservesD)
  show ?case
  proof (cases "f s")
    case (Pair r s1)
    with fs have s1: "I s1" by simp
    show ?thesis
    proof (cases "1 < n")
      case False
      with fs show ?thesis by (simp add: retry_loop.simps)
    next
      case True
      show ?thesis
      proof (cases r)
        case (Inr v)
        with True Pair s1 show ?thesis by (simp add: retry_loop.simps)
      next
        case (Inl e)
        show ?thesis
        proof (cases "chk e")
          case False
          with True Pair Inl s1 show ?thesis by (simp add: retry_loop.simps)
        next
          case chk: True
          from st s1 log have "I (s1\<lparr>trace := trace s1 @ [Log WARNING (Retrying e d)]\<rparr>)"
            by (simp add: stable_trace)
          from stable_trace [OF st this sl, of d]
          have "I (s1\<lparr>trace := trace s1 @ [Log WARNING (Retrying e d), Sleep d]\<rparr>)"
            by simp
          with "1.IH" [OF True Pair [symmetric] Inl chk \<open>preserves I f\<close>] True Pair Inl chk
          show ?thesis
            by (simp add: retry_loop.simps)
        qed
      qed
    qed
  qed
qed

lemma preserves_retry:
  assumes "stable A I" and "\<And>ev. client_events ep ev \<Longrightarrow> A ev" and "preserves I f"
  shows "preserves I (retry chk n d b f)"
  unfolding retry_def
  by (rule preservesI) (rule preserves_retry_loop [OF assms(1) _ _ assms(3)], simp_all add: assms(2))

lemma preserves_get_session_headers:
  assumes "stable A I"
  shows "preserves I (get_session_headers token)"
  by (rule preservesI) (simp add: get_session_headers_eq stable_headers [OF assms])

lemma ends_with_append [simp]: "ends_with ep (url @ ep)"
  by (simp add: ends_with_def)

lemma preserves_get_session_metadata:
  assumes st: "stable A I" and A: "\<And>ev. client_events ''/session_status'' ev \<Longrightarrow> A ev"
  shows "preserves I (get_session_metadata w token)"
  unfolding get_session_metadata_def get_session_metadata_body_def
  by (intro preserves_retry [OF st A] preserves_bnd preserves_log_call [OF st]
      preserves_requests_call [OF st] preserves_gets preserves_lift
      preserves_get_session_headers [OF st] A) simp_all

lemma preserves_request_labels:
  assumes st: "stable A I" and A: "\<And>ev. client_events ''/query_labels'' ev \<Longrightarrow> A ev"
  shows "preserves I (request_labels w token items)"
  unfolding request_labels_def request_labels_body_def
  by (intro preserves_retry [OF st A] preserves_bnd preserves_log_call [OF st]
      preserves_requests_call [OF st] preserves_gets preserves_lift
      preserves_get_session_headers [OF st] A) simp_all

lemma preserves_submit_predictions:
  assumes st: "stable A I" and A: "\<And>ev. client_events ''/submit_predictions'' ev \<Longrightarrow> A ev"
  shows "preserves I (submit_predictions w token predictions)"
  unfolding submit_predictions_def submit_predictions_body_def
  by (intro preserves_retry [OF st A] preserves_bnd preserves_log_call [OF st]
      preserves_requests_call [OF st] preserves_gets preserves_lift preserves_if preserves_ret
      preserves_get_session_headers [OF st] A) simp_all

lemma preserves_get_seed_labels:
  assumes st: "stable A I" and A: "\<And>ev. client_events ''/seed_labels'' ev \<Longrightarrow> A ev"
  shows "preserves I (get_seed_labels w token)"
  unfolding get_seed_labels_def
  by (intro preserves_bnd preserves_log_call [OF st] preserves_emit [OF st]
      preserves_requests_call [OF st] preserves_gets preserves_lift preserves_if preserves_ret
      preserves_raise preserves_get_session_headers [OF st] A) simp_all

lemma preserves_assign_metadata:
  assumes st: "stable A I" and A: "\<And>ev. client_events ''/session_status'' ev \<Longrightarrow> A ev"
    and unchanged: "A (Log INFO MetadataUnchanged)"
  shows "preserves I (assign_metadata w)"
proof -
  have "preserves I (modify (\<lambda>s. s\<lparr>metadata := Some md\<rparr>))" for md
    by (rule preservesI) (simp add: modify_def stable_metadata [OF st])
  moreover have "preserves I (case attr of None \<Rightarrow> ret (JDict [])
      | Some md \<Rightarrow> lift (py_delitem md ''date_last_interacted''))" for attr
    by (cases attr) (simp_all add: preserves_ret preserves_lift)
  ultimately show ?thesis
    unfolding assign_metadata_def refresh_metadata_def
    by (intro preserves_bnd preserves_gets preserves_lift preserves_if preserves_ret
        preserves_log_call [OF st] preserves_get_session_metadata [OF st A] unchanged)
qed

lemma preserves_model_predict:
  assumes "stable A I" and "A (Learner Predict)"
  shows "preserves I (model_predict w)"
proof (rule preservesI)
  fix s assume "I s"
  with assms have "I (s\<lparr>trace := trace s @ [Learner Predict]\<rparr>)"
    by (simp add: stable_trace)
  with assms(1) have "I (s\<lparr>trace := trace s @ [Learner Predict], clock := Suc (clock s)\<rparr>)"
    by (rule stable_clock)
  then show "I (snd (model_predict w s))"
    by (simp add: model_predict_def)
qed

lemma preserves_modify_metadata:
  "stable A I \<Longrightarrow> preserves I (modify (\<lambda>s. s\<lparr>metadata := md\<rparr>))"
  by (rule preservesI) (simp add: modify_def stable_metadata)

lemma preserves_modify_model:
  "stable A I \<Longrightarrow> preserves I (modify (\<lambda>s. s\<lparr>model := g s\<rparr>))"
  by (rule preservesI) (simp add: modify_def stable_model)

text \<open>Units of \<open>Session.run\<close> that record quiet events only.\<close>

lemma quiet_client_events: "client_events ep ev \<Longrightarrow> quiet ev"
  by (cases "(ep, ev)" rule: client_events.cases) (auto elim: is_marker.elims)

lemma preserves_submit_model_predictions:
  assumes st: "stable A I" and A: "\<And>ev. quiet ev \<Longrightarrow> A ev"
  shows "preserves I (submit_model_predictions w)"
  unfolding submit_model_predictions_def
  by (intro preserves_bnd preserves_gets preserves_ret preserves_model_predict [OF st]
      preserves_submit_predictions [OF st A [OF quiet_client_events]]) (simp_all add: A)

lemma preserves_request_label_loop:
  assumes st: "stable A I" and A: "\<And>ev. quiet ev \<Longrightarrow> A ev"
  shows "preserves I (request_label_loop w)"
  unfolding request_label_loop_def model_most_uncertain_def add_to_label_cache_def
  by (intro preserves_bnd preserves_gets preserves_ret preserves_emit [OF st]
      preserves_request_labels [OF st A [OF quiet_client_events]]) (simp_all add: A)

lemma preserves_quiet_assign_metadata:
  assumes st: "stable A I" and A: "\<And>ev. quiet ev \<Longrightarrow> A ev"
  shows "preserves I (assign_metadata w)"
  by (rule preserves_assign_metadata [OF st]) (simp_all add: A quiet_client_events)

lemma preserves_log_budget:
  assumes st: "stable A I" and A: "\<And>used left. A (Log INFO (msg used left))"
  shows "preserves I (log_budget msg)"
  unfolding log_budget_def
  by (intro preserves_bnd preserves_metadata_item preserves_log_call [OF st] A)

lemma preserves_set_budget_zero:
  assumes st: "stable A I"
  shows "preserves I set_budget_zero"
  unfolding set_budget_zero_def
  by (intro preserves_bnd preserves_the_metadata preserves_lift preserves_modify_metadata [OF st])

lemma preserves_stage_check: "preserves I (stage_check i range_lim)"
  unfolding stage_check_def
  by (intro preserves_bnd preserves_gets preserves_if preserves_metadata_item preserves_ret
      preserves_raise)

lemma preserves_model_set_stage:
  assumes st: "stable A I" and A: "\<And>ev. quiet ev \<Longrightarrow> A ev"
  shows "preserves I (model_set_stage stage md)"
  unfolding model_set_stage_def
  by (intro preserves_bnd preserves_emit [OF st] preserves_modify_model [OF st])
    (simp_all add: A)

lemma preserves_budget_guard: "preserves I budget_guard"
  unfolding budget_guard_def by (intro preserves_bnd preserves_metadata_item preserves_lift)

lemma budget_guard_state: "snd (budget_guard s) = s"
  by (simp add: budget_guard_def metadata_item_def the_metadata_def prog_defs
      split: option.splits sum.splits)

lemma preserves_budget_loop_state:
  "preserves I (budget_iteration w) \<Longrightarrow> I s \<Longrightarrow> I (snd (budget_loop w s))"
proof (induction w s rule: budget_loop.induct)
  case (1 w s)
  obtain r s1 where g: "budget_guard s = (r, s1)" by (cases "budget_guard s")
  with budget_guard_state [of s] have s1: "s1 = s" by simp
  show ?case
  proof (cases r)
    case (Inl e)
    with g s1 "1.prems" show ?thesis by (simp add: budget_loop.simps)
  next
    case (Inr go)
    show ?thesis
    proof (cases go)
      case False
      with g s1 Inr "1.prems" show ?thesis by (simp add: budget_loop.simps)
    next
      case True
      obtain r2 s2 where it: "budget_iteration w s = (r2, s2)"
        by (cases "budget_iteration w s")
      from "1.prems" have "I (snd (budget_iteration w s))" by (simp add: preservesD)
      with it have s2: "I s2" by simp
      show ?thesis
      proof (cases r2)
        case (Inl e)
        with g s1 Inr True it s2 show ?thesis by (simp add: budget_loop.simps)
      next
        case r2: (Inr u)
        from g s1 have g': "(r, s) = budget_guard s" by simp
        from it s1 have it': "(r2, s2) = budget_iteration w s" by simp
        have "I (snd (budget_loop w s2))"
          using "1.IH" [OF g' Inr True it' r2 "1.prems"(1) s2] .
        with g s1 Inr True it r2 show ?thesis by (simp add: budget_loop.simps)
      qed
    qed
  qed
qed

lemma preserves_budget_loop:
  "preserves I (budget_iteration w) \<Longrightarrow> preserves I (budget_loop w)"
  by (rule preservesI) (rule preserves_budget_loop_state)

text \<open>
  The whole of \<open>Session.run\<close> preserves a property that is stable for the quiet events
  and the markers and that survives the record of a call of \<open>fit\<close> on the label cache.
\<close>

lemma preserves_fit_label_cache:
  assumes fit: "\<And>s. I s \<Longrightarrow> I (s\<lparr>trace := trace s @ [Learner (Fit (label_cache s))]\<rparr>)"
  shows "preserves I fit_label_cache"
  by (rule preservesI)
    (simp add: fit_label_cache_def model_fit_def prog_defs fit split: sum.splits)

lemma preserves_seed_round_body:
  assumes st: "stable A I" and A: "\<And>ev. quiet ev \<Longrightarrow> A ev"
    and fit: "\<And>s. I s \<Longrightarrow> I (s\<lparr>trace := trace s @ [Learner (Fit (label_cache s))]\<rparr>)"
  shows "preserves I
     (bnd (gets session_token) (\<lambda>token.
      bnd (get_seed_labels w token) (\<lambda>seed_labels.
      bnd (assign_metadata w) (\<lambda>_.
      bnd (log_budget Budget) (\<lambda>_.
      bnd (add_to_label_cache seed_labels True) (\<lambda>_.
      bnd fit_label_cache (\<lambda>_.
      bnd (submit_model_predictions w) (\<lambda>_.
      bnd (assign_metadata w) (\<lambda>_.
      log_budget SubmittedBudget)))))))))"
  unfolding add_to_label_cache_def
  by (intro preserves_bnd preserves_gets preserves_ret
      preserves_get_seed_labels [OF st A [OF quiet_client_events]]
      preserves_quiet_assign_metadata [OF st A] preserves_log_budget [OF st]
      preserves_fit_label_cache preserves_submit_model_predictions [OF st A] fit)
    (simp_all add: A)

lemma preserves_budget_iteration:
  assumes st: "stable A I" and A: "\<And>ev. quiet ev \<Longrightarrow> A ev"
    and fit: "\<And>s. I s \<Longrightarrow> I (s\<lparr>trace := trace s @ [Learner (Fit (label_cache s))]\<rparr>)"
  shows "preserves I (budget_iteration w)"
  unfolding budget_iteration_def budget_step_def
  by (intro preserves_bnd preserves_request_label_loop [OF st A]
      preserves_quiet_assign_metadata [OF st A] preserves_log_budget [OF st]
      preserves_fit_label_cache preserves_set_budget_zero [OF st] fit) (simp_all add: A)

lemma preserves_checkpoint_body:
  assumes st: "stable A I" and A: "\<And>ev. quiet ev \<Longrightarrow> A ev"
    and fit: "\<And>s. I s \<Longrightarrow> I (s\<lparr>trace := trace s @ [Learner (Fit (label_cache s))]\<rparr>)"
  shows "preserves I
     (bnd (budget_loop w) (\<lambda>_.
      bnd (submit_model_predictions w) (\<lambda>_.
      bnd (assign_metadata w) (\<lambda>_.
      stage_check i range_lim))))"
  by (intro preserves_bnd preserves_budget_loop preserves_budget_iteration [OF st A fit]
      preserves_submit_model_predictions [OF st A] preserves_quiet_assign_metadata [OF st A]
      preserves_stage_check)

lemma preserves_run:
  assumes st: "stable A I" and A: "\<And>ev. quiet ev \<Longrightarrow> A ev"
    and mark: "\<And>ev. is_marker ev \<Longrightarrow> A ev"
    and fit: "\<And>s. I s \<Longrightarrow> I (s\<lparr>trace := trace s @ [Learner (Fit (label_cache s))]\<rparr>)"
  shows "preserves I (run w)"
proof -
  have seed: "preserves I (seed_round w i)" for i
    unfolding seed_round_def
    by (intro preserves_bnd preserves_log_call [OF st] preserves_seed_round_body [OF st A fit])
      (simp_all add: mark)
  have check: "preserves I (checkpoint w range_lim i)" for range_lim i
    unfolding checkpoint_def
    by (intro preserves_bnd preserves_gets preserves_if preserves_log_call [OF st]
        preserves_checkpoint_body [OF st A fit]) (simp_all add: mark)
  have stage: "preserves I (stage_body w range_lim stage)" for range_lim stage
    unfolding stage_body_def
    by (intro preserves_bnd preserves_gets preserves_if preserves_ret preserves_log_call [OF st]
        preserves_metadata_item preserves_model_set_stage [OF st A] preserves_for_each
        seed check) (simp_all add: mark)
  show ?thesis
    unfolding run_def run_stages_def assert_complete_def
    by (intro preserves_bnd preserves_gets preserves_if preserves_ret preserves_raise
        preserves_log_call [OF st] preserves_metadata_item preserves_the_metadata
        preserves_modify_model [OF st] preserves_for_each stage) (simp_all add: A)
qed

section \<open>The label cache\<close>

lemma bnd_Inr_iff:
  "bnd m f s = (Inr y, s') \<longleftrightarrow> (\<exists>x s1. m s = (Inr x, s1) \<and> f x s1 = (Inr y, s'))"
  by (auto simp: bnd_def split: prod.splits sum.splits)

lemma Session_init_label_cache:
  assumes "Session_init w env config tid dir ptype pre post now s0 = (Inr u, s)"
  shows "label_cache s = JDict []"
  using assms by (auto simp: Session_init_def bnd_Inr_iff modify_def)

lemma demo_session_init:
  "Session_init demo_world ''dev'' ''sample'' ''t1'' ''d'' (Some ''image_classification'')
     ''a'' ''b'' ''now'' fresh_handler = (Inr (), demo_session)"
proof -
  have "fst (Session_init demo_world ''dev'' ''sample'' ''t1'' ''d''
      (Some ''image_classification'') ''a'' ''b'' ''now'' fresh_handler) = Inr ()"
    by (simp add: Session_init_def prog_defs fresh_handler_def LwllApiHandler_init_def
        demo_state_def start_session_def retry_def retry_loop.simps start_session_body_def
        requests_call_def demo_world_def service_def service_body_def r_json_def assign_metadata_def
        refresh_metadata_def get_session_metadata_def get_session_metadata_body_def
        get_session_headers_eq the_metadata_def demo_metadata_def status_doc_def dict_del_def)
  then show ?thesis
    unfolding demo_session_def by (simp add: prod_eq_iff)
qed

lemma run_keeps_cache_empty:
  assumes "label_cache s = JDict []"
  shows "label_cache (snd (run w s)) = JDict []
    \<and> (\<exists>evs. trace (snd (run w s)) = trace s @ evs
          \<and> (\<forall>c. Learner (Fit c) \<in> set evs \<longrightarrow> c = JDict []))"
proof -
  define A where "A = (\<lambda>ev. \<forall>c. ev = Learner (Fit c) \<longrightarrow> c = JDict [])"
  define I where "I = (\<lambda>s' :: state. label_cache s' = JDict []
      \<and> (\<exists>evs. trace s' = trace s @ evs \<and> (\<forall>c. Learner (Fit c) \<in> set evs \<longrightarrow> c = JDict [])))"
  have st: "stable A I"
    unfolding stable_def I_def A_def by auto
  have quiet: "A ev" if "quiet ev" for ev
    using that unfolding A_def by auto
  have mark: "A ev" if "is_marker ev" for ev
    using that unfolding A_def by auto
  have fit: "I (s'\<lparr>trace := trace s' @ [Learner (Fit (label_cache s'))]\<rparr>)" if "I s'" for s'
    using that unfolding I_def by auto
  have "preserves I (run w)"
    by (rule preserves_run [OF st quiet mark fit])
  moreover from assms have "I s"
    unfolding I_def by simp
  ultimately have "I (snd (run w s))"
    by (rule preservesD)
  then show ?thesis
    unfolding I_def .
qed

text \<open>
  Claim C10. The constructor of a session leaves an empty label cache. From a state with
  an empty cache, \<open>Session.run\<close> ends (by return or by exception) with an empty cache, and
  every call of \<open>fit\<close> it has made was given the empty dictionary. The method that merges
  labels into the cache returns without changing the state, whatever the labels.
\<close>

theorem label_cache_stays_empty:
  "(Session_init w env config tid dir ptype pre post now s0 = (Inr (), s)
      \<longrightarrow> label_cache s = JDict [])
   \<and> (label_cache s = JDict [] \<longrightarrow>
        label_cache (snd (run w s)) = JDict []
        \<and> (\<exists>evs. trace (snd (run w s)) = trace s @ evs
              \<and> (\<forall>c. Learner (Fit c) \<in> set evs \<longrightarrow> c = JDict [])))
   \<and> add_to_label_cache labels seed s = (Inr (), s)"
  using Session_init_label_cache [of w env config tid dir ptype pre post now s0 "()" s]
    run_keeps_cache_empty [of s w]
  by (simp add: add_to_label_cache_def ret_def)

theorem label_cache_stays_empty_witness:
  "Session_init demo_world ''dev'' ''sample'' ''t1'' ''d'' (Some ''image_classification'')
       ''a'' ''b'' ''now'' fresh_handler = (Inr (), demo_session)
   \<and> label_cache demo_session = JDict []
   \<and> label_cache (snd (run demo_world demo_session)) = JDict []
   \<and> (\<exists>evs. trace (snd (run demo_world demo_session)) = trace demo_session @ evs
         \<and> (\<forall>c. Learner (Fit c) \<in> set evs \<longrightarrow> c = JDict []))"
  using label_cache_stays_empty [of demo_world "''dev''" "''sample''" "''t1''" "''d''"
      "Some ''image_classification''" "''a''" "''b''" "''now''" fresh_handler demo_session]
    demo_session_init
  by simp

section \<open>The loop of a checkpoint runs its body at most once\<close>

lemma map_of_dict_set_same: "map_of (dict_set d k v) k = Some v"
  by (induction d) auto

lemma set_budget_zero_guard:
  assumes "set_budget_zero s = (Inr u, s')"
  shows "budget_guard s' = (Inr False, s')"
proof -
  from assms obtain md md'
    where set: "py_setitem md ''budget_left_until_checkpoint'' (JInt 0) = Inr md'"
      and s': "s' = s\<lparr>metadata := Some md'\<rparr>"
    by (auto simp: set_budget_zero_def the_metadata_def prog_defs
        split: option.splits sum.splits)
  from set obtain d where "md' = JDict (dict_set d ''budget_left_until_checkpoint'' (JInt 0))"
    by (cases md) auto
  with s' show ?thesis
    by (simp add: budget_guard_def metadata_item_def the_metadata_def prog_defs
        map_of_dict_set_same)
qed

lemma budget_iteration_guard:
  assumes "budget_iteration w s = (Inr u, s')"
  shows "budget_guard s' = (Inr False, s')"
proof -
  from assms obtain s1 where "set_budget_zero s1 = (Inr u, s')"
    unfolding budget_iteration_def bnd_Inr_iff by blast
  then show ?thesis by (rule set_budget_zero_guard)
qed

lemma budget_loop_true:
  assumes "budget_guard s = (Inr True, s)"
  shows "budget_loop w s = budget_iteration w s"
proof (cases "budget_iteration w s")
  case (Pair r s2)
  show ?thesis
  proof (cases r)
    case (Inl e)
    with assms Pair show ?thesis by (simp add: budget_loop.simps [of w s])
  next
    case (Inr u)
    with Pair have "budget_guard s2 = (Inr False, s2)"
      by (simp add: budget_iteration_guard)
    then have "budget_loop w s2 = (Inr (), s2)"
      by (simp add: budget_loop.simps [of w s2])
    with assms Pair Inr show ?thesis by (simp add: budget_loop.simps [of w s])
  qed
qed

lemma budget_loop_false:
  assumes "budget_guard s = (Inr False, s)"
  shows "budget_loop w s = (Inr (), s)"
  using assms by (simp add: budget_loop.simps [of w s])

lemma budget_guard_int:
  assumes "metadata s = Some md" and "py_getitem md ''budget_left_until_checkpoint'' = Inr (JInt b)"
  shows "budget_guard s = (Inr (0 < b), s)"
  using assms by (simp add: budget_guard_def metadata_item_def the_metadata_def prog_defs)

lemma budget_loop_once:
  assumes "metadata s = Some md" and "py_getitem md ''budget_left_until_checkpoint'' = Inr (JInt b)"
  shows "budget_loop w s = (if 0 < b then budget_iteration w s else (Inr (), s))"
  using budget_guard_int [OF assms] by (simp add: budget_loop_true budget_loop_false)

section \<open>A run on a service that answers every request\<close>

lemma bnd_Inr: "m s = (Inr x, s1) \<Longrightarrow> bnd m f s = f x s1"
  by (simp add: bnd_def)

lemma succeedsI:
  "(\<And>s. I s \<Longrightarrow> \<exists>x. fst (m s) = Inr x) \<Longrightarrow> (\<And>s. I s \<Longrightarrow> I (snd (m s))) \<Longrightarrow> succeeds I m"
  by (simp add: succeeds_def)

lemma succeeds_ret: "succeeds I (ret x)"
  by (simp add: succeeds_def ret_def)

lemma succeeds_gets: "succeeds I (gets f)"
  by (simp add: succeeds_def gets_def)

lemma succeeds_bnd:
  assumes "succeeds I m" and "\<And>x. succeeds I (f x)"
  shows "succeeds I (bnd m f)"
proof (rule succeedsI)
  fix s assume "I s"
  obtain r s1 where ms: "m s = (r, s1)" by (cases "m s")
  with assms(1) \<open>I s\<close> obtain x where x: "r = Inr x" and 1: "I s1"
    unfolding succeeds_def by fastforce
  from assms(2) [of x] 1 obtain y where "fst (f x s1) = Inr y" and "I (snd (f x s1))"
    unfolding succeeds_def by blast
  with ms x show "\<exists>y. fst (bnd m f s) = Inr y" and "I (snd (bnd m f s))"
    by (simp_all add: bnd_def)
qed

lemma succeeds_if: "succeeds I a \<Longrightarrow> succeeds I b \<Longrightarrow> succeeds I (if c then a else b)"
  by simp

lemma succeeds_for_each:
  assumes "\<And>x. succeeds I (body x)"
  shows "succeeds I (for_each xs body)"
  by (induction xs) (auto intro: succeeds_ret succeeds_bnd assms)

lemma succeeds_log_call:
  assumes "\<And>s. I s \<Longrightarrow> I (s\<lparr>trace := trace s @ [Log l r]\<rparr>)"
  shows "succeeds I (log_call l r)"
  using assms by (simp add: succeeds_def log_call_def emit_def)

lemmas service_defs =
  service_def service_body_def status_doc_def ready_def fit_ready_def

lemma service_get_session_metadata:
  "fst (get_session_metadata (service a) token s) = Inr (status_doc a 5)"
  "metadata (snd (get_session_metadata (service a) token s)) = metadata s"
  "model (snd (get_session_metadata (service a) token s)) = model s"
  by (simp_all add: get_session_metadata_def retry_def retry_loop.simps
      get_session_metadata_body_def get_session_headers_eq requests_call_def r_json_def
      prog_defs service_defs)

lemma service_assign_metadata_result:
  assumes "ready a s"
  shows "fst (assign_metadata (service a) s) = Inr ()"
    and "metadata (snd (assign_metadata (service a) s)) = Some (status_doc a 5)"
    and "model (snd (assign_metadata (service a) s)) = model s"
proof -
  obtain r s1 where g: "get_session_metadata (service a) (session_token s) s = (r, s1)"
    by (cases "get_session_metadata (service a) (session_token s) s")
  with service_get_session_metadata [of a "session_token s" s]
  have r: "r = Inr (status_doc a 5)" and s1: "metadata s1 = metadata s" "model s1 = model s"
    by simp_all
  from assms g r s1 show "fst (assign_metadata (service a) s) = Inr ()"
    and "metadata (snd (assign_metadata (service a) s)) = Some (status_doc a 5)"
    and "model (snd (assign_metadata (service a) s)) = model s"
    by (auto simp: assign_metadata_def refresh_metadata_def prog_defs service_defs dict_del_def)
qed

lemma service_assign_metadata: "succeeds (fit_ready a) (assign_metadata (service a))"
proof (rule succeedsI)
  fix s assume "fit_ready a s"
  then have s: "ready a s" and m: "pair_stage (model s) \<noteq> []"
      "dataset_metadata (model s) \<noteq> JDict []"
    by (simp_all add: fit_ready_def)
  from service_assign_metadata_result [OF s] m
  show "\<exists>x. fst (assign_metadata (service a) s) = Inr x"
    and "fit_ready a (snd (assign_metadata (service a) s))"
    by (simp_all add: fit_ready_def ready_def)
qed

lemma service_log_budget: "succeeds (fit_ready a) (log_budget msg)"
  by (rule succeedsI)
    (auto simp: service_defs log_budget_def metadata_item_def the_metadata_def prog_defs)

lemma service_get_seed_labels: "succeeds (fit_ready a) (get_seed_labels (service a) token)"
  by (rule succeedsI)
    (simp_all add: get_seed_labels_def get_session_headers_eq requests_call_def r_json_def
      prog_defs service_defs)

lemma service_fit_label_cache: "succeeds (fit_ready a) fit_label_cache"
  by (rule succeedsI)
    (simp_all add: fit_label_cache_def model_fit_def fit_def prog_defs fit_ready_def
      ready_def)

lemma service_submit_model_predictions:
  "succeeds (fit_ready a) (submit_model_predictions (service a))"
  by (rule succeedsI)
    (simp_all add: submit_model_predictions_def model_predict_def submit_predictions_def
      retry_def retry_loop.simps submit_predictions_body_def get_session_headers_eq
      requests_call_def r_json_def prog_defs service_defs)

lemma service_request_label_loop: "succeeds (fit_ready a) (request_label_loop (service a))"
  by (rule succeedsI)
    (simp_all add: request_label_loop_def model_most_uncertain_def add_to_label_cache_def
      request_labels_def retry_def retry_loop.simps request_labels_body_def
      get_session_headers_eq requests_call_def r_json_def prog_defs service_defs)

lemma service_set_budget_zero: "succeeds (fit_ready a) set_budget_zero"
  by (rule succeedsI)
    (auto simp: set_budget_zero_def the_metadata_def prog_defs service_defs)

lemma service_stage_check:
  assumes "i \<noteq> range_lim"
  shows "succeeds I (stage_check i range_lim)"
  using assms by (simp add: succeeds_def stage_check_def prog_defs)

lemma service_seed_round: "succeeds (fit_ready a) (seed_round (service a) i)"
  unfolding seed_round_def add_to_label_cache_def
  by (intro succeeds_bnd succeeds_gets succeeds_ret succeeds_log_call service_get_seed_labels
      service_assign_metadata service_log_budget service_fit_label_cache service_submit_model_predictions)
    (simp add: fit_ready_def ready_def)

lemma service_budget_iteration: "succeeds (fit_ready a) (budget_iteration (service a))"
  unfolding budget_iteration_def budget_step_def
  by (intro succeeds_bnd service_request_label_loop service_fit_label_cache service_assign_metadata
      service_log_budget service_set_budget_zero)

lemma service_budget_loop: "succeeds (fit_ready a) (budget_loop (service a))"
proof (rule succeedsI)
  fix s assume s: "fit_ready a s"
  then consider "metadata s = Some (status_doc a 5)" | "metadata s = Some (status_doc a 0)"
    unfolding fit_ready_def ready_def by blast
  then have "budget_loop (service a) s = budget_iteration (service a) s
      \<or> budget_loop (service a) s = (Inr (), s)"
  proof cases
    case 1
    then show ?thesis
      using budget_loop_once [of s "status_doc a 5" 5 "service a"] by (simp add: status_doc_def)
  next
    case 2
    then show ?thesis
      using budget_loop_once [of s "status_doc a 0" 0 "service a"]
      by (simp add: status_doc_def)
  qed
  with s service_budget_iteration
  show "\<exists>x. fst (budget_loop (service a) s) = Inr x"
    and "fit_ready a (snd (budget_loop (service a) s))"
    unfolding succeeds_def by auto
qed

lemma service_checkpoint:
  assumes "i \<noteq> range_lim"
  shows "succeeds (fit_ready a) (checkpoint (service a) range_lim i)"
  unfolding checkpoint_def
  by (intro succeeds_bnd succeeds_gets succeeds_if succeeds_log_call service_budget_loop
      service_submit_model_predictions service_assign_metadata service_stage_check assms)
    (simp_all add: fit_ready_def ready_def)

lemma range_below: "i \<in> set (py_range n) \<Longrightarrow> i \<noteq> n"
  by (auto simp: py_range_def)

lemma succeeds_for_each_in:
  assumes "\<And>x. x \<in> set xs \<Longrightarrow> succeeds I (body x)"
  shows "succeeds I (for_each xs body)"
  using assms by (induction xs) (auto intro: succeeds_ret succeeds_bnd)

lemma service_stage_body:
  "succeeds (ready a) (stage_body (service a) range_lim stage)" if "stage \<noteq> []"
proof (rule succeedsI)
  fix s assume s: "ready a s"
  define s1 where "s1 = s\<lparr>trace := trace s @ [Log INFO (StartingStage stage),
      Learner (SetStage stage (JDict [(''name'', JStr ''mnist'')]))],
      model := set_stage stage (JDict [(''name'', JStr ''mnist'')]) (model s)\<rparr>"
  define rest where "rest = bnd (gets problem_type) (\<lambda>ptype.
     bnd (if ptype \<noteq> Some ''machine_translation''
          then for_each (py_range 4) (seed_round (service a)) else ret ()) (\<lambda>_.
     for_each (py_range range_lim) (checkpoint (service a) range_lim)))"
  from s have eq: "stage_body (service a) range_lim stage s = rest s1"
    unfolding stage_body_def rest_def s1_def
    by (auto simp: service_defs metadata_item_def the_metadata_def model_set_stage_def prog_defs)
  from s that have s1: "fit_ready a s1"
    unfolding s1_def by (auto simp: fit_ready_def ready_def set_stage_def)
  have "succeeds (fit_ready a) rest"
    unfolding rest_def
    by (intro succeeds_bnd succeeds_gets succeeds_if succeeds_ret succeeds_for_each
        succeeds_for_each_in service_seed_round service_checkpoint range_below)
  with s1 have "\<exists>x. fst (rest s1) = Inr x" and "fit_ready a (snd (rest s1))"
    unfolding succeeds_def by blast+
  with eq show "\<exists>x. fst (stage_body (service a) range_lim stage s) = Inr x"
    and "ready a (snd (stage_body (service a) range_lim stage s))"
    by (simp_all add: fit_ready_def)
qed

lemma service_run_stages: "succeeds (ready a) (run_stages (service a))"
proof -
  have "succeeds (ready a) (modify (\<lambda>s. s\<lparr>model := ModelWrapper_init (environment s)
      (dataset_dir s) (dataset_config s)\<rparr>))"
    by (simp add: succeeds_def modify_def ready_def)
  moreover have "succeeds (ready a) (for_each [''base'', ''adaptation'']
      (stage_body (service a) range_lim))" for range_lim
    by (rule succeeds_for_each_in) (auto intro: service_stage_body)
  ultimately show ?thesis
    unfolding run_stages_def by (intro succeeds_bnd succeeds_gets)
qed

lemma demo_state_ready: "ready ''Complete'' demo_state"
  by (simp add: ready_def demo_state_def demo_metadata_def)

lemma demo_run_stages_returns: "fst (run_stages demo_world demo_state) = Inr ()"
  using service_run_stages [of "''Complete''"] demo_state_ready
  unfolding succeeds_def demo_world_def by auto

lemma demo_run_returns: "fst (run demo_world demo_state) = Inr ()"
proof -
  obtain r s1 where rs: "run_stages demo_world demo_state = (r, s1)"
    by (cases "run_stages demo_world demo_state")
  with service_run_stages [of "''Complete''"] demo_state_ready
  have r: "r = Inr ()" and s1: "ready ''Complete'' s1"
    unfolding succeeds_def demo_world_def by fastforce+
  from s1 have "fst (bnd assert_complete (\<lambda>_. log_call INFO SessionCompleted) s1) = Inr ()"
    by (auto simp: assert_complete_def metadata_item_def the_metadata_def prog_defs
        ready_def status_doc_def)
  with rs r show ?thesis
    by (simp add: run_def bnd_def)
qed

section \<open>Seed rounds and checkpoints\<close>

lemma py_range_8: "py_range 8 = [0, 1, 2, 3, 4, 5, 6, 7]"
  by (simp add: py_range_def upt_rec)

lemma marksI:
  assumes "\<And>s. problem_type s = p \<Longrightarrow> problem_type (snd (m s)) = p"
    and "\<And>s. problem_type s = p \<Longrightarrow>
      \<exists>done rest. markers (trace (snd (m s))) = markers (trace s) @ done \<and> exp = done @ rest
          \<and> ((\<exists>x. fst (m s) = Inr x) \<longrightarrow> rest = [])"
  shows "marks p m exp"
  using assms unfolding marks_def by blast

lemma marks_quiet:
  assumes "\<And>t. preserves (\<lambda>s. problem_type s = p \<and> markers (trace s) = t) m"
  shows "marks p m []"
proof (rule marksI)
  fix s :: state assume p: "problem_type s = p"
  from assms [of "markers (trace s)"] p
  have "problem_type (snd (m s)) = p \<and> markers (trace (snd (m s))) = markers (trace s)"
    by (auto dest: preservesD)
  then show "problem_type (snd (m s)) = p"
    and "\<exists>done rest. markers (trace (snd (m s))) = markers (trace s) @ done \<and> [] = done @ rest
          \<and> ((\<exists>x. fst (m s) = Inr x) \<longrightarrow> rest = [])"
    by simp_all
qed

lemma marks_ret: "marks p (ret x) []"
  by (rule marksI) (simp_all add: ret_def)

lemma marks_marker:
  assumes "is_marker (Log INFO r)"
  shows "marks p (log_call INFO r) [Log INFO r]"
  using assms by (intro marksI) (simp_all add: log_call_def emit_def markers_def)

lemma marks_bnd:
  assumes m: "marks p m e1" and f: "\<And>x. marks p (f x) e2"
  shows "marks p (bnd m f) (e1 @ e2)"
proof (rule marksI)
  fix s :: state assume p: "problem_type s = p"
  obtain r s1 where ms: "m s = (r, s1)" by (cases "m s")
  from m p ms obtain d1 r1 where p1: "problem_type s1 = p"
    and t1: "markers (trace s1) = markers (trace s) @ d1" and e1: "e1 = d1 @ r1"
    and ok1: "(\<exists>x. r = Inr x) \<longrightarrow> r1 = []"
    unfolding marks_def by fastforce
  show "problem_type (snd (bnd m f s)) = p"
  proof (cases r)
    case (Inl e)
    with ms p1 show ?thesis by (simp add: bnd_def)
  next
    case (Inr x)
    from f [of x] p1 have "problem_type (snd (f x s1)) = p"
      unfolding marks_def by blast
    with ms Inr show ?thesis by (simp add: bnd_def)
  qed
  show "\<exists>done rest. markers (trace (snd (bnd m f s))) = markers (trace s) @ done
      \<and> e1 @ e2 = done @ rest \<and> ((\<exists>x. fst (bnd m f s) = Inr x) \<longrightarrow> rest = [])"
  proof (cases r)
    case (Inl e)
    with ms t1 e1 show ?thesis
      by (intro exI [of _ d1] exI [of _ "r1 @ e2"]) (simp add: bnd_def)
  next
    case (Inr x)
    from f [of x] p1 obtain d2 r2
      where t2: "markers (trace (snd (f x s1))) = markers (trace s1) @ d2" and e2: "e2 = d2 @ r2"
      and ok2: "(\<exists>y. fst (f x s1) = Inr y) \<longrightarrow> r2 = []"
      unfolding marks_def by blast
    from ok1 Inr have "r1 = []" by blast
    with ms Inr t1 e1 t2 e2 ok2 show ?thesis
      by (intro exI [of _ "d1 @ d2"] exI [of _ r2]) (simp add: bnd_def)
  qed
qed

lemma marks_bnd_quiet:
  assumes "marks p m []" and "\<And>x. marks p (f x) e"
  shows "marks p (bnd m f) e"
  using marks_bnd [OF assms] by simp

lemma marks_gets_problem_type:
  assumes "marks p (f p) e"
  shows "marks p (bnd (gets problem_type) f) e"
  using assms unfolding marks_def by (simp add: bnd_def gets_def)

lemma marks_for_each:
  assumes "\<And>x. marks p (body x) (g x)"
  shows "marks p (for_each xs body) (concat (map g xs))"
proof (induction xs)
  case Nil
  show ?case by (simp add: marks_ret)
next
  case (Cons x xs)
  from marks_bnd [OF assms [of x], of "\<lambda>_. for_each xs body", OF Cons] show ?case
    by simp
qed

text \<open>The property that quiet steps preserve, and the steps of a round that are quiet.\<close>

lemma stable_markers:
  "stable (\<lambda>ev. \<not> is_marker ev) (\<lambda>s. problem_type s = p \<and> markers (trace s) = t)"
  by (simp add: stable_def markers_def)

lemma marks_seed_round: "marks p (seed_round w i) [Log INFO (GettingSeedRound (i + 1))]"
proof -
  have "preserves (\<lambda>s. problem_type s = p \<and> markers (trace s) = t)
     (bnd (gets session_token) (\<lambda>token.
      bnd (get_seed_labels w token) (\<lambda>seed_labels.
      bnd (assign_metadata w) (\<lambda>_.
      bnd (log_budget Budget) (\<lambda>_.
      bnd (add_to_label_cache seed_labels True) (\<lambda>_.
      bnd fit_label_cache (\<lambda>_.
      bnd (submit_model_predictions w) (\<lambda>_.
      bnd (assign_metadata w) (\<lambda>_.
      log_budget SubmittedBudget)))))))))" for t
    by (rule preserves_seed_round_body [OF stable_markers])
      (auto simp: markers_def elim: quiet.elims)
  then have "marks p (bnd (gets session_token) (\<lambda>token.
      bnd (get_seed_labels w token) (\<lambda>seed_labels.
      bnd (assign_metadata w) (\<lambda>_.
      bnd (log_budget Budget) (\<lambda>_.
      bnd (add_to_label_cache seed_labels True) (\<lambda>_.
      bnd fit_label_cache (\<lambda>_.
      bnd (submit_model_predictions w) (\<lambda>_.
      bnd (assign_metadata w) (\<lambda>_.
      log_budget SubmittedBudget))))))))) []"
    by (rule marks_quiet)
  with marks_bnd [OF marks_marker, of "GettingSeedRound (i + 1)" p] show ?thesis
    unfolding seed_round_def by simp
qed

lemma marks_checkpoint:
  "marks p (checkpoint w range_lim i)
     [Log INFO (StartingCheckpoint (if p = Some ''machine_translation'' then i else i + 5))]"
proof -
  have "preserves (\<lambda>s. problem_type s = p \<and> markers (trace s) = t)
     (bnd (budget_loop w) (\<lambda>_.
      bnd (submit_model_predictions w) (\<lambda>_.
      bnd (assign_metadata w) (\<lambda>_.
      stage_check i range_lim))))" for t
    by (rule preserves_checkpoint_body [OF stable_markers])
      (auto simp: markers_def elim: quiet.elims)
  then have rest: "marks p (bnd (budget_loop w) (\<lambda>_.
      bnd (submit_model_predictions w) (\<lambda>_.
      bnd (assign_metadata w) (\<lambda>_.
      stage_check i range_lim)))) []"
    by (rule marks_quiet)
  have mt: "marks p (bnd (log_call INFO (StartingCheckpoint i)) (\<lambda>_.
      bnd (budget_loop w) (\<lambda>_.
      bnd (submit_model_predictions w) (\<lambda>_.
      bnd (assign_metadata w) (\<lambda>_.
      stage_check i range_lim))))) [Log INFO (StartingCheckpoint i)]"
    using marks_bnd [OF marks_marker rest, of "StartingCheckpoint i"] by simp
  have other: "marks p (bnd (log_call INFO (StartingCheckpoint (i + 5))) (\<lambda>_.
      bnd (budget_loop w) (\<lambda>_.
      bnd (submit_model_predictions w) (\<lambda>_.
      bnd (assign_metadata w) (\<lambda>_.
      stage_check i range_lim))))) [Log INFO (StartingCheckpoint (i + 5))]"
    using marks_bnd [OF marks_marker rest, of "StartingCheckpoint (i + 5)"] by simp
  show ?thesis
    unfolding checkpoint_def
  proof (rule marks_gets_problem_type)
    show "marks p
       (bnd (if p = Some ''machine_translation'' then log_call INFO (StartingCheckpoint i)
             else log_call INFO (StartingCheckpoint (i + 5)))
         (\<lambda>_. bnd (budget_loop w) (\<lambda>_. bnd (submit_model_predictions w)
            (\<lambda>_. bnd (assign_metadata w) (\<lambda>_. stage_check i range_lim)))))
       [Log INFO (StartingCheckpoint (if p = Some ''machine_translation'' then i else i + 5))]"
    proof (cases "p = Some ''machine_translation''")
      case True
      with mt show ?thesis by simp
    next
      case False
      with other show ?thesis by simp
    qed
  qed
qed

lemma marks_stage_body:
  "marks p (stage_body w (if p = Some ''machine_translation'' then 8 else 4) stage)
     (stage_markers p stage)"
proof -
  let ?lim = "if p = Some ''machine_translation'' then 8 else 4 :: int"
  have item: "marks p (metadata_item ''current_dataset'') []"
    by (rule marks_quiet) (rule preserves_metadata_item)
  have set: "marks p (model_set_stage stage cd) []" for cd
    by (rule marks_quiet, rule preserves_model_set_stage [OF stable_markers])
      (auto elim: quiet.elims)
  have seeds: "marks p (if p \<noteq> Some ''machine_translation''
        then for_each (py_range 4) (seed_round w) else ret ())
      (if p = Some ''machine_translation'' then []
       else map (\<lambda>i. Log INFO (GettingSeedRound i)) [1, 2, 3, 4])"
    using marks_for_each [of p "seed_round w" "\<lambda>i. [Log INFO (GettingSeedRound (i + 1))]"
        "py_range 4", OF marks_seed_round]
    by (simp add: marks_ret py_range_4)
  have checks: "marks p (for_each (py_range ?lim) (checkpoint w ?lim))
      (if p = Some ''machine_translation''
       then map (\<lambda>i. Log INFO (StartingCheckpoint i)) [0, 1, 2, 3, 4, 5, 6, 7]
       else map (\<lambda>i. Log INFO (StartingCheckpoint i)) [5, 6, 7, 8])"
  proof (cases "p = Some ''machine_translation''")
    case True
    with marks_for_each [of p "checkpoint w 8"
        "\<lambda>i. [Log INFO (StartingCheckpoint (if p = Some ''machine_translation'' then i else i + 5))]"
        "py_range 8", OF marks_checkpoint]
    show ?thesis by (simp add: py_range_8)
  next
    case False
    with marks_for_each [of p "checkpoint w 4"
        "\<lambda>i. [Log INFO (StartingCheckpoint (if p = Some ''machine_translation'' then i else i + 5))]"
        "py_range 4", OF marks_checkpoint]
    show ?thesis by (simp add: py_range_4)
  qed
  have tail: "marks p
      (bnd (if p \<noteq> Some ''machine_translation''
            then for_each (py_range 4) (seed_round w) else ret ())
         (\<lambda>_. for_each (py_range ?lim) (checkpoint w ?lim)))
      (if p = Some ''machine_translation''
       then map (\<lambda>i. Log INFO (StartingCheckpoint i)) [0, 1, 2, 3, 4, 5, 6, 7]
       else map (\<lambda>i. Log INFO (GettingSeedRound i)) [1, 2, 3, 4]
          @ map (\<lambda>i. Log INFO (StartingCheckpoint i)) [5, 6, 7, 8])"
    using marks_bnd [OF seeds, of "\<lambda>_. for_each (py_range ?lim) (checkpoint w ?lim)", OF checks]
    by (simp split: if_splits)
  have "marks p
      (bnd (metadata_item ''current_dataset'') (\<lambda>current_dataset.
       bnd (model_set_stage stage current_dataset) (\<lambda>_.
       bnd (gets problem_type) (\<lambda>ptype.
       bnd (if ptype \<noteq> Some ''machine_translation''
            then for_each (py_range 4) (seed_round w) else ret ())
         (\<lambda>_. for_each (py_range ?lim) (checkpoint w ?lim))))))
      (if p = Some ''machine_translation''
       then map (\<lambda>i. Log INFO (StartingCheckpoint i)) [0, 1, 2, 3, 4, 5, 6, 7]
       else map (\<lambda>i. Log INFO (GettingSeedRound i)) [1, 2, 3, 4]
          @ map (\<lambda>i. Log INFO (StartingCheckpoint i)) [5, 6, 7, 8])"
    by (intro marks_bnd_quiet [OF item] marks_bnd_quiet [OF set] marks_gets_problem_type tail)
  from marks_bnd [OF marks_marker, of "StartingStage stage" p, OF _ this] show ?thesis
    unfolding stage_body_def stage_markers_def by simp
qed

lemma marks_run_stages:
  "marks p (run_stages w) (stage_markers p ''base'' @ stage_markers p ''adaptation'')"
proof -
  have init: "marks p (modify (\<lambda>s. s\<lparr>model := ModelWrapper_init (environment s) (dataset_dir s)
      (dataset_config s)\<rparr>)) []"
    by (rule marks_quiet) (rule preserves_modify_model [OF stable_markers])
  have "marks p (for_each [''base'', ''adaptation'']
      (stage_body w (if p = Some ''machine_translation'' then 8 else 4)))
      (concat (map (stage_markers p) [''base'', ''adaptation'']))"
    by (rule marks_for_each) (rule marks_stage_body)
  then show ?thesis
    unfolding run_stages_def
    by (intro marks_bnd_quiet [OF init] marks_gets_problem_type) simp
qed

text \<open>
  Claim C2. In every run of the loop over the stages, the markers recorded are an initial
  part of the list for stage \<open>base\<close> followed by the list for stage \<open>adaptation\<close>, and
  the whole of it when the loop is left by its end rather than by an exception. For machine
  translation a stage has no seed round and eight checkpoints, otherwise four seed rounds and
  then four checkpoints. The outside world \<open>w\<close> is arbitrary: no budget value that the
  service reports changes the list.
\<close>

theorem rounds_per_stage:
  "\<exists>done rest.
      markers (trace (snd (run_stages w s))) = markers (trace s) @ done
    \<and> stage_markers (problem_type s) ''base'' @ stage_markers (problem_type s) ''adaptation''
        = done @ rest
    \<and> (fst (run_stages w s) = Inr () \<longrightarrow> rest = [])"
  using marks_run_stages [of "problem_type s" w] unfolding marks_def by auto

theorem rounds_per_stage_witness:
  "fst (run_stages demo_world demo_state) = Inr ()
   \<and> markers (trace (snd (run_stages demo_world demo_state)))
       = stage_markers (Some ''image_classification'') ''base''
       @ stage_markers (Some ''image_classification'') ''adaptation''"
  using rounds_per_stage [of demo_world demo_state] demo_run_stages_returns
  by (auto simp: demo_state_def markers_def)

section \<open>The end of a run\<close>

lemma last_fetched_snoc:
  "last_fetched (t @ [ev]) = (case fetched ev of None \<Rightarrow> last_fetched t | Some md \<Rightarrow> Some md)"
  unfolding last_fetched_def by simp

lemma retry_loop_returns:
  "retry_loop chk b f n d s = (Inr v, s') \<Longrightarrow> \<exists>s0. f s0 = (Inr v, s')"
proof (induction chk b f n d s rule: retry_loop.induct)
  case (1 chk b f n d s)
  obtain r s1 where fs: "f s = (r, s1)" by (cases "f s")
  show ?case
  proof (cases "1 < n")
    case False
    with "1.prems" show ?thesis by (auto simp: retry_loop.simps [of chk b f n d s])
  next
    case True
    show ?thesis
    proof (cases r)
      case (Inr x)
      with True fs "1.prems" show ?thesis
        by (auto simp: retry_loop.simps [of chk b f n d s])
    next
      case (Inl e)
      show ?thesis
      proof (cases "chk e")
        case False
        with True fs Inl "1.prems" show ?thesis
          by (simp add: retry_loop.simps [of chk b f n d s])
      next
        case chk: True
        with True fs Inl "1.prems"
        have "retry_loop chk b f (n - 1) (d * b)
            (s1\<lparr>trace := trace s1 @ [Log WARNING (Retrying e d), Sleep d]\<rparr>) = (Inr v, s')"
          by (simp add: retry_loop.simps [of chk b f n d s])
        with "1.IH" [OF True fs [symmetric] Inl chk] show ?thesis by blast
      qed
    qed
  qed
qed

lemma get_session_metadata_fetched:
  assumes "get_session_metadata w token s = (Inr md, s')"
  shows "last_fetched (trace s') = Some md"
proof -
  from assms obtain s0 where body: "get_session_metadata_body w token s0 = (Inr md, s')"
    unfolding get_session_metadata_def retry_def by (blast dest: retry_loop_returns)
  then show "last_fetched (trace s') = Some md"
    by (auto simp: get_session_metadata_body_def bnd_Inr_iff get_session_headers_eq
        requests_call_def r_json_def prog_defs last_fetched_def Let_def
        split: http_outcome.splits option.splits sum.splits)
qed

lemma refresh_metadata_returns:
  assumes "refresh_metadata w s = (Inr md, s')"
  shows "\<exists>s1. get_session_metadata w (session_token s) s = (Inr md, s1)
      \<and> (s' = s1 \<or> s' = s1\<lparr>trace := trace s1 @ [Log INFO MetadataUnchanged]\<rparr>)"
proof -
  from assms obtain old where
    "bnd (gets session_token) (\<lambda>token.
     bnd (get_session_metadata w token) (\<lambda>md.
     bnd (lift (py_delitem md ''date_last_interacted'')) (\<lambda>new_metadata.
     bnd (if old = new_metadata then log_call INFO MetadataUnchanged else ret ()) (\<lambda>_.
     ret md)))) s = (Inr md, s')"
    unfolding refresh_metadata_def
    by (cases "metadata s") (auto simp: bnd_def gets_def ret_def lift_def split: sum.splits)
  then show ?thesis
    by (auto simp: bnd_Inr_iff gets_def ret_def lift_def log_call_def emit_def split: if_splits)
qed

lemma assign_metadata_fetched:
  assumes "assign_metadata w s = (Inr u, s')"
  shows "\<exists>md. metadata s' = Some md \<and> last_fetched (trace s') = Some md"
proof -
  from assms obtain md s2 where r: "refresh_metadata w s = (Inr md, s2)"
    and s': "s' = s2\<lparr>metadata := Some md\<rparr>"
    by (auto simp: assign_metadata_def bnd_Inr_iff modify_def)
  from refresh_metadata_returns [OF r] obtain s1
    where get: "get_session_metadata w (session_token s) s = (Inr md, s1)"
      and s2: "s2 = s1 \<or> s2 = s1\<lparr>trace := trace s1 @ [Log INFO MetadataUnchanged]\<rparr>"
    by blast
  from get have "last_fetched (trace s1) = Some md"
    by (rule get_session_metadata_fetched)
  with s' s2 show ?thesis
    by (auto simp: last_fetched_snoc)
qed

lemma stage_check_state: "snd (stage_check i range_lim s) = s"
  by (simp add: stage_check_def metadata_item_def the_metadata_def prog_defs
      split: option.splits sum.splits)

lemma checkpoint_fetched:
  assumes "checkpoint w range_lim i s = (Inr u, s')"
  shows "\<exists>md. metadata s' = Some md \<and> last_fetched (trace s') = Some md"
proof -
  from assms obtain s1 s2 u1 where a: "assign_metadata w s1 = (Inr u1, s2)"
    and c: "stage_check i range_lim s2 = (Inr u, s')"
    unfolding checkpoint_def bnd_Inr_iff by blast
  from c stage_check_state [of i range_lim s2] have "s' = s2" by simp
  with assign_metadata_fetched [OF a] show ?thesis by simp
qed

lemma for_each_last:
  assumes "for_each xs body s = (Inr u, s')" and "xs \<noteq> []"
    and "\<And>x s s'. body x s = (Inr (), s') \<Longrightarrow> Q s'"
  shows "Q s'"
  using assms(1,2)
proof (induction xs arbitrary: s)
  case Nil
  then show ?case by simp
next
  case (Cons x xs)
  from Cons.prems(1) obtain s1 where b: "body x s = (Inr (), s1)"
    and rest: "for_each xs body s1 = (Inr u, s')"
    by (auto simp: bnd_Inr_iff)
  show ?case
  proof (cases "xs = []")
    case True
    with rest have "s' = s1" by (simp add: ret_def)
    with b assms(3) show ?thesis by blast
  next
    case False
    with Cons.IH rest show ?thesis by blast
  qed
qed

lemma py_range_nonempty: "0 < n \<Longrightarrow> py_range n \<noteq> []"
  by (simp add: py_range_def)

lemma stage_body_fetched:
  assumes "stage_body w range_lim stage s = (Inr u, s')" and "0 < range_lim"
  shows "\<exists>md. metadata s' = Some md \<and> last_fetched (trace s') = Some md"
proof -
  from assms(1) obtain s1 where
    "for_each (py_range range_lim) (checkpoint w range_lim) s1 = (Inr u, s')"
    unfolding stage_body_def bnd_Inr_iff by blast
  then show ?thesis
    by (rule for_each_last) (auto simp: py_range_nonempty assms(2) dest: checkpoint_fetched)
qed

lemma run_stages_fetched:
  assumes "run_stages w s = (Inr u, s')"
  shows "\<exists>md. metadata s' = Some md \<and> last_fetched (trace s') = Some md"
proof -
  from assms obtain s1 range_lim where lim: "range_lim = 8 \<or> range_lim = (4 :: int)"
    and "for_each [''base'', ''adaptation''] (stage_body w range_lim) s1 = (Inr u, s')"
    unfolding run_stages_def bnd_Inr_iff by (auto simp: gets_def split: if_splits)
  then show ?thesis
    by (elim for_each_last) (auto dest: stage_body_fetched)
qed

text \<open>
  Claim C3. When the loop over the stages has ended without an exception, the stored
  metadata is the document that the last \<open>session_status\<close> exchange delivered. If its
  \<open>active\<close> field is not \<open>Complete\<close>, \<open>Session.run\<close> raises the assertion error that
  carries the metadata, in the very state in which the loop ended: nothing more is sent,
  slept or logged. If it is \<open>Complete\<close>, the run returns, and it has added one log record
  and nothing else.
\<close>

theorem incomplete_session_is_fatal:
  assumes "run_stages w s = (Inr (), s1)"
  shows "\<exists>md. metadata s1 = Some md \<and> last_fetched (trace s1) = Some md
    \<and> (\<forall>a. py_getitem md ''active'' = Inr a \<longrightarrow>
          (if a = JStr ''Complete''
           then run w s = (Inr (), s1\<lparr>trace := trace s1 @ [Log INFO SessionCompleted]\<rparr>)
           else run w s = (Inl (AssertionError (Some md)), s1)))"
proof -
  from run_stages_fetched [OF assms] obtain md
    where md: "metadata s1 = Some md" "last_fetched (trace s1) = Some md"
    by blast
  have "run w s = (Inr (), s1\<lparr>trace := trace s1 @ [Log INFO SessionCompleted]\<rparr>)"
    if "py_getitem md ''active'' = Inr (JStr ''Complete'')"
    using assms md that
    by (simp add: run_def assert_complete_def metadata_item_def the_metadata_def prog_defs)
  moreover have "run w s = (Inl (AssertionError (Some md)), s1)"
    if "py_getitem md ''active'' = Inr a" "a \<noteq> JStr ''Complete''" for a
    using assms md that
    by (simp add: run_def assert_complete_def metadata_item_def the_metadata_def prog_defs)
  ultimately show ?thesis
    using md by auto
qed

lemma stuck_run_stages:
  "run_stages stuck_world stuck_state = (Inr (), snd (run_stages stuck_world stuck_state))"
  using service_run_stages [of "''Active''"]
  unfolding succeeds_def stuck_world_def
  by (auto simp: ready_def stuck_state_def prod_eq_iff)

lemma stuck_ready: "ready ''Active'' (snd (run_stages stuck_world stuck_state))"
  using service_run_stages [of "''Active''"]
  unfolding succeeds_def stuck_world_def
  by (auto simp: ready_def stuck_state_def)

theorem incomplete_session_is_fatal_witness:
  "run_stages stuck_world stuck_state = (Inr (), snd (run_stages stuck_world stuck_state))
   \<and> (\<exists>md. metadata (snd (run_stages stuck_world stuck_state)) = Some md
         \<and> py_getitem md ''active'' = Inr (JStr ''Active'')
         \<and> run stuck_world stuck_state
             = (Inl (AssertionError (Some md)), snd (run_stages stuck_world stuck_state)))"
proof -
  from incomplete_session_is_fatal [OF stuck_run_stages] obtain md
    where md: "metadata (snd (run_stages stuck_world stuck_state)) = Some md"
      and run: "\<forall>a. py_getitem md ''active'' = Inr a \<longrightarrow>
          (if a = JStr ''Complete''
           then run stuck_world stuck_state = (Inr (), (snd (run_stages stuck_world stuck_state))
                  \<lparr>trace := trace (snd (run_stages stuck_world stuck_state))
                     @ [Log INFO SessionCompleted]\<rparr>)
           else run stuck_world stuck_state
                  = (Inl (AssertionError (Some md)), snd (run_stages stuck_world stuck_state)))"
    by blast
  from stuck_ready md have "py_getitem md ''active'' = Inr (JStr ''Active'')"
    by (auto simp: ready_def status_doc_def)
  with md run stuck_run_stages show ?thesis
    by auto
qed

section \<open>The check of the stage at the end of a checkpoint\<close>

lemma stage_check_in_range:
  "i \<in> set (py_range range_lim) \<Longrightarrow> stage_check i range_lim s = (Inr (), s)"
  by (auto simp: stage_check_def prog_defs py_range_def)

text \<open>
  Claim C6. The demo service reports \<open>pair_stage = base\<close> in every document, also at the
  end of stage \<open>base\<close>, and the run returns without an exception: the check compares the
  index of the checkpoint with \<open>range_lim\<close>, a value that \<open>range(range_lim)\<close> never
  yields (lemma \<open>stage_check_in_range\<close>), so the assertion on \<open>pair_stage\<close> is never
  evaluated.
\<close>

theorem unadvanced_stage_goes_unnoticed:
  "http demo_world n = Response 200 (Some (service_body ''Complete''))
   \<and> py_getitem (service_body ''Complete'') ''Session_Status'' = Inr (status_doc ''Complete'' 5)
   \<and> py_getitem (status_doc ''Complete'' 5) ''pair_stage'' = Inr (JStr ''base'')
   \<and> problem_type demo_state = Some ''image_classification''
   \<and> fst (run demo_world demo_state) = Inr ()"
  using demo_run_returns
  by (simp add: demo_world_def service_def service_body_def status_doc_def demo_state_def)

section \<open>Seed labels without the labels field\<close>

lemma get_seed_labels_no_labels:
  assumes "http w (clock s) = Response 200 (Some (JDict d))" and "map_of d ''Labels'' = None"
  shows "get_seed_labels w (session_token s) s =
    (Inl (Exception (service_message d)),
     s\<lparr>non_session_headers := dict_set (non_session_headers s) ''session_token'' (session_token s),
       trace := trace s @ [Log DEBUG (Calling ''/seed_labels''),
         seed_labels_exchange s (Response 200 (Some (JDict d))),
         Print (JList (map JStr (map fst d)))],
       clock := Suc (clock s)\<rparr>)"
  using assms
  by (simp add: get_seed_labels_def get_session_headers_eq requests_call_def r_json_def
      prog_defs map_of_eq_None_iff trace_or_error_def service_message_def
      seed_labels_exchange_def split: option.splits)

lemma seed_round_no_labels:
  assumes "http w (clock s) = Response 200 (Some (JDict d))" and "map_of d ''Labels'' = None"
  shows "seed_round w i s =
    (Inl (Exception (service_message d)),
     s\<lparr>non_session_headers := dict_set (non_session_headers s) ''session_token'' (session_token s),
       trace := trace s @ [Log INFO (GettingSeedRound (i + 1)),
         Log DEBUG (Calling ''/seed_labels''),
         seed_labels_exchange s (Response 200 (Some (JDict d))),
         Print (JList (map JStr (map fst d)))],
       clock := Suc (clock s)\<rparr>)"
proof -
  let ?s1 = "s\<lparr>trace := trace s @ [Log INFO (GettingSeedRound (i + 1))]\<rparr>"
  from assms have "http w (clock ?s1) = Response 200 (Some (JDict d))"
    by simp
  from get_seed_labels_no_labels [OF this assms(2)] show ?thesis
    by (simp add: seed_round_def prog_defs seed_labels_exchange_def)
qed

lemma run_no_labels:
  assumes "http w (clock s) = Response 200 (Some (JDict d))" and "map_of d ''Labels'' = None"
    and "problem_type s \<noteq> Some ''machine_translation''"
    and "metadata s = Some md" and "py_getitem md ''current_dataset'' = Inr cd"
  shows "fst (run w s) = Inl (Exception (service_message d))"
    and "http_events (trace (snd (run w s)))
      = http_events (trace s) @ [seed_labels_exchange s (Response 200 (Some (JDict d)))]"
proof -
  let ?s1 = "s\<lparr>trace := trace s @ [Log INFO (StartingStage ''base''),
        Learner (SetStage ''base'' cd)],
      model := set_stage ''base'' cd
        (ModelWrapper_init (environment s) (dataset_dir s) (dataset_config s))\<rparr>"
  from assms(1) have "http w (clock ?s1) = Response 200 (Some (JDict d))"
    by simp
  note abort = seed_round_no_labels [OF this assms(2), of 0]
  from assms(3-5) have "run w s = seed_round w 0 ?s1"
    by (simp add: run_def run_stages_def stage_body_def metadata_item_def the_metadata_def
        model_set_stage_def py_range_4 prog_defs abort)
  with abort show "fst (run w s) = Inl (Exception (service_message d))"
    and "http_events (trace (snd (run w s)))
      = http_events (trace s) @ [seed_labels_exchange s (Response 200 (Some (JDict d)))]"
    by (simp_all add: http_events_def seed_labels_exchange_def)
qed

text \<open>
  Claim C4. The service answers the request of \<open>get_seed_labels\<close> with status 200 and a
  dictionary without \<open>Labels\<close>. Then the call raises an exception whose message is the
  \<open>trace\<close> field of the answer, failing that its \<open>Error\<close> field; it has sent that one
  request and has not slept. The seed round that makes the call ends with this exception
  after the same events, one marker apart, so before its \<open>submit_predictions\<close>; the loop
  over the seed rounds ends there; and a run whose first seed round meets this answer ends
  with the exception, having sent no other request.
\<close>

theorem seed_labels_without_labels_abort:
  assumes "http w (clock s) = Response 200 (Some (JDict d))" and "map_of d ''Labels'' = None"
  shows "fst (get_seed_labels w (session_token s) s) = Inl (Exception (service_message d))
    \<and> trace (snd (get_seed_labels w (session_token s) s))
        = trace s @ [Log DEBUG (Calling ''/seed_labels''),
            seed_labels_exchange s (Response 200 (Some (JDict d))),
            Print (JList (map JStr (map fst d)))]
    \<and> fst (seed_round w i s) = Inl (Exception (service_message d))
    \<and> trace (snd (seed_round w i s))
        = trace s @ [Log INFO (GettingSeedRound (i + 1)), Log DEBUG (Calling ''/seed_labels''),
            seed_labels_exchange s (Response 200 (Some (JDict d))),
            Print (JList (map JStr (map fst d)))]
    \<and> for_each (i # rest) (seed_round w) s = seed_round w i s
    \<and> (problem_type s \<noteq> Some ''machine_translation'' \<and> metadata s = Some md
         \<and> py_getitem md ''current_dataset'' = Inr cd \<longrightarrow>
         fst (run w s) = Inl (Exception (service_message d))
         \<and> http_events (trace (snd (run w s)))
             = http_events (trace s) @ [seed_labels_exchange s (Response 200 (Some (JDict d)))])"
  using get_seed_labels_no_labels [OF assms] seed_round_no_labels [OF assms, of i]
    run_no_labels [OF assms, of md cd]
  by (simp add: bnd_def)

theorem seed_labels_without_labels_abort_witness:
  "http broken_world (clock demo_state) = Response 200 (Some (JDict [(''trace'', JStr ''boom'')]))
   \<and> map_of [(''trace'', JStr ''boom'')] ''Labels'' = None
   \<and> fst (get_seed_labels broken_world (session_token demo_state) demo_state)
       = Inl (Exception (JStr ''boom''))
   \<and> fst (seed_round broken_world 0 demo_state) = Inl (Exception (JStr ''boom''))
   \<and> fst (run broken_world demo_state) = Inl (Exception (JStr ''boom''))
   \<and> http_events (trace (snd (run broken_world demo_state)))
       = [Http (Request GET ''u/seed_labels''
                  [(''user_secret'', JStr ''k''), (''session_token'', JStr ''tok'')] None)
               (Response 200 (Some (JDict [(''trace'', JStr ''boom'')])))]"
  using seed_labels_without_labels_abort [of broken_world demo_state
      "[(''trace'', JStr ''boom'')]" 0 "[]" demo_metadata "JDict [(''name'', JStr ''mnist'')]"]
  by (simp add: broken_world_def demo_state_def demo_metadata_def status_doc_def
      service_message_def seed_labels_exchange_def http_events_def)

section \<open>The signal of an unchanged snapshot\<close>

lemma get_session_metadata_unchanged_count:
  "unchanged_count (trace (snd (get_session_metadata w token s))) = unchanged_count (trace s)"
proof -
  have "preserves (\<lambda>s'. unchanged_count (trace s') = unchanged_count (trace s))
      (get_session_metadata w token)"
    by (rule preserves_get_session_metadata [where A = "client_events ''/session_status''"])
      (auto simp: stable_def unchanged_count_def)
  then show ?thesis
    by (auto dest: preservesD)
qed

lemma assign_metadata_signal:
  assumes "metadata s = Some (JDict d0)" and "map_of d0 ''date_last_interacted'' = Some t0"
    and "get_session_metadata w (session_token s) s = (Inr (JDict d1), s1)"
    and "map_of d1 ''date_last_interacted'' = Some t1"
  shows "assign_metadata w s =
    (Inr (), (if dict_del d0 ''date_last_interacted'' = dict_del d1 ''date_last_interacted''
              then s1\<lparr>trace := trace s1 @ [Log INFO MetadataUnchanged]\<rparr> else s1)
             \<lparr>metadata := Some (JDict d1)\<rparr>)"
  using assms by (simp add: assign_metadata_def refresh_metadata_def prog_defs)

text \<open>
  Claim C7, as it stands, fails. The session has stored the document of the demo service;
  two more refreshes follow, as in a seed round, with nothing assigned to the metadata in
  between. The service delivers the same document both times, neither call raises, and the
  two calls record two \<open>unchanged\<close> signals, not one: the first of the two also finds its
  document equal to the stored one.
\<close>

theorem two_unchanged_signals:
  "unchanged_count (trace demo_state) = 0
   \<and> fst (assign_metadata demo_world demo_state) = Inr ()
   \<and> fst (assign_metadata demo_world (snd (assign_metadata demo_world demo_state))) = Inr ()
   \<and> unchanged_count
        (trace (snd (assign_metadata demo_world (snd (assign_metadata demo_world demo_state)))))
       = 2"
  by (simp add: assign_metadata_def refresh_metadata_def get_session_metadata_def retry_def
      retry_loop.simps get_session_metadata_body_def get_session_headers_eq requests_call_def
      r_json_def prog_defs demo_world_def service_def service_body_def status_doc_def
      demo_state_def demo_metadata_def dict_del_def unchanged_count_def)

text \<open>
  Claim C7, amended. The stored snapshot and the two snapshots fetched by two refreshes in
  a row are dictionaries with a \<open>date_last_interacted\<close> field, nothing is assigned to the
  stored snapshot between the two calls, and the two fetched snapshots are equal once that
  field is removed (values and order of keys). Then neither call raises, the second call
  records exactly one \<open>unchanged\<close> signal whatever the time stamps are, and the first call
  records one exactly when its snapshot equals, that field removed, the one stored before.
\<close>

theorem unchanged_signal_of_second_refresh:
  assumes "metadata s = Some (JDict d0)" and "map_of d0 ''date_last_interacted'' = Some t0"
    and "get_session_metadata w (session_token s) s = (Inr (JDict d1), s1)"
    and "map_of d1 ''date_last_interacted'' = Some t1"
    and "get_session_metadata w (session_token s) (snd (assign_metadata w s))
           = (Inr (JDict d2), s2)"
    and "map_of d2 ''date_last_interacted'' = Some t2"
    and "dict_del d1 ''date_last_interacted'' = dict_del d2 ''date_last_interacted''"
  shows "fst (assign_metadata w s) = Inr ()
    \<and> fst (assign_metadata w (snd (assign_metadata w s))) = Inr ()
    \<and> unchanged_count (trace (snd (assign_metadata w s)))
        = unchanged_count (trace s)
          + (if dict_del d0 ''date_last_interacted'' = dict_del d1 ''date_last_interacted''
             then 1 else 0)
    \<and> unchanged_count (trace (snd (assign_metadata w (snd (assign_metadata w s)))))
        = unchanged_count (trace (snd (assign_metadata w s))) + 1"
proof -
  let ?s' = "snd (assign_metadata w s)"
  note first = assign_metadata_signal [OF assms(1-4)]
  from first have md: "metadata ?s' = Some (JDict d1)"
    by (simp split: if_splits)
  have tok1: "session_token s1 = session_token s"
  proof -
    have "preserves (\<lambda>s'. session_token s' = session_token s)
        (get_session_metadata w (session_token s))"
      by (rule preserves_get_session_metadata [where A = "\<lambda>ev. True"])
        (simp_all add: stable_def)
    with assms(3) show ?thesis by (auto dest: preservesD)
  qed
  from first tok1 have tok: "session_token ?s' = session_token s"
    by (simp split: if_splits)
  from assms(5) tok
  have get2: "get_session_metadata w (session_token ?s') ?s' = (Inr (JDict d2), s2)"
    by simp
  note second = assign_metadata_signal [OF md assms(4) get2 assms(6)]
  from get_session_metadata_unchanged_count [of w "session_token s" s] assms(3)
  have c1: "unchanged_count (trace s1) = unchanged_count (trace s)"
    by simp
  from get_session_metadata_unchanged_count [of w "session_token ?s'" ?s'] get2
  have c2: "unchanged_count (trace s2) = unchanged_count (trace ?s')"
    by simp
  from first c1 have "fst (assign_metadata w s) = Inr ()"
    and "unchanged_count (trace ?s') = unchanged_count (trace s)
          + (if dict_del d0 ''date_last_interacted'' = dict_del d1 ''date_last_interacted''
             then 1 else 0)"
    by (simp_all add: unchanged_count_def)
  moreover from second c2 assms(7)
  have "fst (assign_metadata w ?s') = Inr ()"
    and "unchanged_count (trace (snd (assign_metadata w ?s')))
        = unchanged_count (trace ?s') + 1"
    by (simp_all add: unchanged_count_def)
  ultimately show ?thesis
    by simp
qed

theorem unchanged_signal_of_second_refresh_witness:
  "metadata ticking_state
     = Some (JDict [(''active'', JStr ''Pending''), (''date_last_interacted'', JInt 0)])
   \<and> fst (get_session_metadata ticking_world (session_token ticking_state) ticking_state)
       = Inr (JDict [(''active'', JStr ''Active''), (''date_last_interacted'', JInt 0)])
   \<and> fst (get_session_metadata ticking_world (session_token ticking_state)
            (snd (assign_metadata ticking_world ticking_state)))
       = Inr (JDict [(''active'', JStr ''Active''), (''date_last_interacted'', JInt 1)])
   \<and> fst (assign_metadata ticking_world ticking_state) = Inr ()
   \<and> fst (assign_metadata ticking_world (snd (assign_metadata ticking_world ticking_state)))
       = Inr ()
   \<and> unchanged_count (trace (snd (assign_metadata ticking_world ticking_state))) = 0
   \<and> unchanged_count (trace (snd (assign_metadata ticking_world
        (snd (assign_metadata ticking_world ticking_state))))) = 1"
  using unchanged_signal_of_second_refresh [of ticking_state
      "[(''active'', JStr ''Pending''), (''date_last_interacted'', JInt 0)]" "JInt 0"
      ticking_world
      "[(''active'', JStr ''Active''), (''date_last_interacted'', JInt 0)]"
      "snd (get_session_metadata ticking_world (session_token ticking_state) ticking_state)"
      "JInt 0"
      "[(''active'', JStr ''Active''), (''date_last_interacted'', JInt 1)]"
      "snd (get_session_metadata ticking_world (session_token ticking_state)
         (snd (assign_metadata ticking_world ticking_state)))"
      "JInt 1"]
  by (simp add: prod_eq_iff assign_metadata_def refresh_metadata_def get_session_metadata_def
      retry_def retry_loop.simps get_session_metadata_body_def get_session_headers_eq
      requests_call_def r_json_def prog_defs ticking_world_def ticking_state_def
      demo_state_def dict_del_def unchanged_count_def)

section \<open>The work of a checkpoint\<close>

lemma calls_append [simp]: "calls (t @ u) = calls t @ calls u"
  by (simp add: calls_def)

lemma calls_Nil [simp]: "calls [] = []"
  by (simp add: calls_def)

lemma calls_Cons [simp]: "calls (ev # t) = observe ev @ calls t"
  by (simp add: calls_def)

lemma endpoint_found:
  "find (\<lambda>ep. ends_with ep (url @ ''/session_status'')) session_endpoints
     = Some ''/session_status''"
  "find (\<lambda>ep. ends_with ep (url @ ''/submit_predictions'')) session_endpoints
     = Some ''/submit_predictions''"
  "find (\<lambda>ep. ends_with ep (url @ ''/query_labels'')) session_endpoints
     = Some ''/query_labels''"
  by (simp_all add: session_endpoints_def ends_with_def)

lemma retry_loop_calls:
  assumes ok: "\<And>s v s'. f s = (Inr v, s') \<Longrightarrow> calls (trace s') = calls (trace s) @ [Answered ep]"
    and fail: "\<And>s e s'. f s = (Inl e, s') \<Longrightarrow> chk e \<Longrightarrow> calls (trace s') = calls (trace s)"
  shows "retry_loop chk b f n d s = (Inr v, s')
    \<Longrightarrow> calls (trace s') = calls (trace s) @ [Answered ep]"
  using assms
proof (induction chk b f n d s rule: retry_loop.induct)
  case (1 chk b f n d s)
  obtain r s1 where fs: "f s = (r, s1)" by (cases "f s")
  show ?case
  proof (cases "1 < n")
    case False
    with "1.prems"(1) have "f s = (Inr v, s')"
      by (simp add: retry_loop.simps [of chk b f n d s])
    then show ?thesis by (rule "1.prems"(2))
  next
    case True
    show ?thesis
    proof (cases r)
      case (Inr x)
      with True fs "1.prems"(1) have "f s = (Inr v, s')"
        by (simp add: retry_loop.simps [of chk b f n d s])
      then show ?thesis by (rule "1.prems"(2))
    next
      case (Inl e)
      show ?thesis
      proof (cases "chk e")
        case False
        with True fs Inl "1.prems"(1) show ?thesis
          by (simp add: retry_loop.simps [of chk b f n d s])
      next
        case chk: True
        let ?s2 = "s1\<lparr>trace := trace s1 @ [Log WARNING (Retrying e d), Sleep d]\<rparr>"
        from True fs Inl chk "1.prems"(1)
        have "retry_loop chk b f (n - 1) (d * b) ?s2 = (Inr v, s')"
          by (simp add: retry_loop.simps [of chk b f n d s])
        from "1.IH" [OF True fs [symmetric] Inl chk this "1.prems"(2) "1.prems"(3)]
        have "calls (trace s') = calls (trace ?s2) @ [Answered ep]" .
        moreover from fs Inl chk "1.prems"(3) have "calls (trace s1) = calls (trace s)"
          by blast
        ultimately show ?thesis by simp
      qed
    qed
  qed
qed

lemma py_getitem_not_transient: "py_getitem j k = Inl e \<Longrightarrow> \<not> conn_or_timeout e"
  by (cases j) (auto split: option.splits)

lemma py_get_not_transient: "py_get j k dflt = Inl e \<Longrightarrow> \<not> conn_or_timeout e"
  by (cases j) auto

lemma get_session_metadata_calls:
  assumes "get_session_metadata w token s = (Inr md, s')"
  shows "calls (trace s') = calls (trace s) @ [Answered ''/session_status'']"
  using assms unfolding get_session_metadata_def retry_def
  by (rule retry_loop_calls [rotated 2])
    (auto simp: get_session_metadata_body_def get_session_headers_eq requests_call_def
      r_json_def prog_defs endpoint_found Let_def
      dest: py_getitem_not_transient
      split: http_outcome.splits option.splits sum.splits)

lemma request_labels_calls:
  assumes "request_labels w token items s = (Inr labels, s')"
  shows "calls (trace s') = calls (trace s) @ [Answered ''/query_labels'']"
  using assms unfolding request_labels_def retry_def
  by (rule retry_loop_calls [rotated 2])
    (auto simp: request_labels_body_def get_session_headers_eq requests_call_def
      r_json_def prog_defs endpoint_found Let_def
      dest: py_getitem_not_transient
      split: http_outcome.splits option.splits sum.splits)

lemma submit_predictions_calls:
  assumes "submit_predictions w token predictions s = (Inr v, s')"
  shows "calls (trace s') = calls (trace s) @ [Answered ''/submit_predictions'']"
  using assms unfolding submit_predictions_def retry_def
  by (rule retry_loop_calls [rotated 2])
    (auto simp: submit_predictions_body_def get_session_headers_eq requests_call_def
      r_json_def prog_defs endpoint_found Let_def trace_or_error_def
      dest: py_get_not_transient
      split: http_outcome.splits option.splits sum.splits if_splits)

lemma assign_metadata_calls:
  assumes "assign_metadata w s = (Inr u, s')"
  shows "calls (trace s') = calls (trace s) @ [Answered ''/session_status'']"
    and "label_cache s' = label_cache s"
proof -
  from assms obtain md s2 where r: "refresh_metadata w s = (Inr md, s2)"
    and s': "s' = s2\<lparr>metadata := Some md\<rparr>"
    by (auto simp: assign_metadata_def bnd_Inr_iff modify_def)
  from refresh_metadata_returns [OF r] obtain s1
    where get: "get_session_metadata w (session_token s) s = (Inr md, s1)"
      and s2: "s2 = s1 \<or> s2 = s1\<lparr>trace := trace s1 @ [Log INFO MetadataUnchanged]\<rparr>"
    by blast
  from get_session_metadata_calls [OF get] s' s2
  show "calls (trace s') = calls (trace s) @ [Answered ''/session_status'']"
    by auto
  have "preserves (\<lambda>s1. label_cache s1 = label_cache s) (assign_metadata w)"
    by (rule preserves_assign_metadata [where A = "\<lambda>ev. True"]) (simp_all add: stable_def)
  with assms show "label_cache s' = label_cache s"
    by (auto dest: preservesD)
qed

lemma log_budget_calls:
  assumes "log_budget msg s = (Inr u, s')"
  shows "calls (trace s') = calls (trace s)" and "label_cache s' = label_cache s"
  using assms
  by (auto simp: log_budget_def metadata_item_def the_metadata_def bnd_Inr_iff gets_def
      lift_def log_call_def emit_def split: option.splits)

lemma fit_label_cache_calls:
  assumes "fit_label_cache s = (Inr u, s')"
  shows "calls (trace s') = calls (trace s) @ [Asked (Fit (label_cache s))]"
    and "label_cache s' = label_cache s"
  using assms
  by (auto simp: fit_label_cache_def model_fit_def bnd_Inr_iff gets_def lift_def emit_def)

lemma request_label_loop_calls:
  assumes "request_label_loop w s = (Inr u, s')"
  shows "calls (trace s') = calls (trace s) @ [Asked MostUncertain, Answered ''/query_labels'']"
    and "label_cache s' = label_cache s"
proof -
  let ?s1 = "s\<lparr>trace := trace s @ [Learner MostUncertain]\<rparr>"
  from assms obtain labels
    where "request_labels w (session_token s) (JList []) ?s1 = (Inr labels, s')"
    by (auto simp: request_label_loop_def model_most_uncertain_def bnd_Inr_iff gets_def
        ret_def emit_def add_to_label_cache_def most_uncertain_unlabeled_items_def)
  from request_labels_calls [OF this]
  show "calls (trace s') = calls (trace s) @ [Asked MostUncertain, Answered ''/query_labels'']"
    by simp
  have "preserves (\<lambda>s1. label_cache s1 = label_cache s) (request_label_loop w)"
    by (rule preserves_request_label_loop [where A = "\<lambda>ev. True"]) (simp_all add: stable_def)
  with assms show "label_cache s' = label_cache s"
    by (auto dest: preservesD)
qed

lemma set_budget_zero_calls:
  assumes "set_budget_zero s = (Inr u, s')"
  shows "calls (trace s') = calls (trace s)"
  using assms
  by (auto simp: set_budget_zero_def the_metadata_def bnd_Inr_iff lift_def modify_def
      split: option.splits)

lemma budget_iteration_calls:
  assumes "budget_iteration w s = (Inr u, s')"
  shows "calls (trace s') = calls (trace s)
      @ [Asked MostUncertain, Answered ''/query_labels'', Asked (Fit (label_cache s)),
         Answered ''/session_status'']"
proof -
  from assms obtain s1 s2 s3 s4 u1 u2 u3 u4 u5
    where 1: "request_label_loop w s = (Inr u1, s1)"
      and 2: "fit_label_cache s1 = (Inr u2, s2)"
      and 3: "assign_metadata w s2 = (Inr u3, s3)"
      and 4: "log_budget SubmittedBudget s3 = (Inr u4, s4)"
      and 5: "set_budget_zero s4 = (Inr u5, s')"
    unfolding budget_iteration_def budget_step_def bnd_Inr_iff by blast
  from request_label_loop_calls [OF 1] fit_label_cache_calls [OF 2] assign_metadata_calls [OF 3]
    log_budget_calls [OF 4] set_budget_zero_calls [OF 5]
  show ?thesis by simp
qed

lemma submit_model_predictions_calls:
  assumes "submit_model_predictions w s = (Inr u, s')"
  shows "calls (trace s') = calls (trace s) @ [Asked Predict, Answered ''/submit_predictions'']"
proof -
  let ?s1 = "s\<lparr>trace := trace s @ [Learner Predict], clock := Suc (clock s)\<rparr>"
  from assms obtain predictions v
    where "submit_predictions w (session_token s) predictions ?s1 = (Inr v, s')"
    by (auto simp: submit_model_predictions_def model_predict_def bnd_Inr_iff gets_def ret_def)
  from submit_predictions_calls [OF this] show ?thesis
    by simp
qed

lemma checkpoint_calls:
  assumes md: "metadata s = Some md"
    and b: "py_getitem md ''budget_left_until_checkpoint'' = Inr (JInt b)"
    and run: "checkpoint w range_lim i s = (Inr u, s')"
  shows "calls (trace s') = calls (trace s)
      @ (if 0 < b
         then [Asked MostUncertain, Answered ''/query_labels'', Asked (Fit (label_cache s)),
               Answered ''/session_status'']
         else [])
      @ [Asked Predict, Answered ''/submit_predictions'', Answered ''/session_status'']"
proof -
  from run obtain r s1 s2 s3 s4 u2 u3 u4
    where 1: "s1 = s\<lparr>trace := trace s @ [Log INFO r]\<rparr>"
      and 2: "budget_loop w s1 = (Inr u2, s2)"
      and 3: "submit_model_predictions w s2 = (Inr u3, s3)"
      and 4: "assign_metadata w s3 = (Inr u4, s4)"
      and 5: "stage_check i range_lim s4 = (Inr u, s')"
    unfolding checkpoint_def bnd_Inr_iff
    by (auto simp: gets_def log_call_def emit_def split: if_splits)
  from 1 md have "metadata s1 = Some md" by simp
  note loop = budget_loop_once [OF this b, of w]
  have "calls (trace s2) = calls (trace s1)
      @ (if 0 < b
         then [Asked MostUncertain, Answered ''/query_labels'', Asked (Fit (label_cache s1)),
               Answered ''/session_status'']
         else [])"
  proof (cases "0 < b")
    case True
    with loop 2 have "budget_iteration w s1 = (Inr u2, s2)" by simp
    from budget_iteration_calls [OF this] True show ?thesis by simp
  next
    case False
    with loop 2 show ?thesis by simp
  qed
  moreover from 5 stage_check_state [of i range_lim s4] have "s' = s4" by simp
  ultimately show ?thesis
    using 1 submit_model_predictions_calls [OF 3] assign_metadata_calls(1) [OF 4]
    by simp
qed

text \<open>
  Claim C8. A checkpoint is entered with an integer budget \<open>b\<close> in the stored metadata.
  Its \<open>while\<close> loop is then one run of the loop body when \<open>b\<close> is positive, whatever the
  service reports in the metadata that the body fetches, and no run of it otherwise. A
  checkpoint that is not left by an exception has asked the learner and the service for
  exactly this: with a positive budget the items to label, the labels (answered), a fit on
  the label cache and the session status (answered); then in every case one prediction, one
  answered submission and one answered session status.
\<close>

theorem checkpoint_runs_loop_body_once:
  assumes "metadata s = Some md"
    and "py_getitem md ''budget_left_until_checkpoint'' = Inr (JInt b)"
  shows "budget_loop w s = (if 0 < b then budget_iteration w s else (Inr (), s))
    \<and> (checkpoint w range_lim i s = (Inr (), s') \<longrightarrow>
         calls (trace s') = calls (trace s)
           @ (if 0 < b
              then [Asked MostUncertain, Answered ''/query_labels'',
                    Asked (Fit (label_cache s)), Answered ''/session_status'']
              else [])
           @ [Asked Predict, Answered ''/submit_predictions'', Answered ''/session_status''])"
  using budget_loop_once [OF assms, of w] checkpoint_calls [OF assms, of w range_lim i "()" s']
  by simp

lemma staged_checkpoint_returns:
  "checkpoint demo_world 4 0 staged_state
     = (Inr (), snd (checkpoint demo_world 4 0 staged_state))"
proof -
  have "fit_ready ''Complete'' staged_state"
    by (simp add: fit_ready_def ready_def staged_state_def demo_state_def demo_metadata_def
        set_stage_def)
  with service_checkpoint [of 0 4 "''Complete''"] show ?thesis
    unfolding succeeds_def demo_world_def by (auto simp: prod_eq_iff)
qed

theorem checkpoint_runs_loop_body_once_witness:
  "metadata staged_state = Some demo_metadata
   \<and> py_getitem demo_metadata ''budget_left_until_checkpoint'' = Inr (JInt 5)
   \<and> budget_loop demo_world staged_state = budget_iteration demo_world staged_state
   \<and> checkpoint demo_world 4 0 staged_state
       = (Inr (), snd (checkpoint demo_world 4 0 staged_state))
   \<and> calls (trace (snd (checkpoint demo_world 4 0 staged_state)))
       = [Asked MostUncertain, Answered ''/query_labels'', Asked (Fit (JDict [])),
          Answered ''/session_status'', Asked Predict, Answered ''/submit_predictions'',
          Answered ''/session_status'']"
  using checkpoint_runs_loop_body_once [of staged_state demo_metadata 5 demo_world 4 0
      "snd (checkpoint demo_world 4 0 staged_state)"]
    staged_checkpoint_returns
  by (simp add: staged_state_def demo_state_def demo_metadata_def status_doc_def)

section \<open>The retry policy\<close>

lemma sleeps_append [simp]: "sleeps (t @ u) = sleeps t @ sleeps u"
  by (simp add: sleeps_def)

lemma http_events_append [simp]: "http_events (t @ u) = http_events t @ http_events u"
  by (simp add: http_events_def)

lemma transient_raised:
  "transient out \<Longrightarrow> \<exists>e. raised out = Some e \<and> conn_or_timeout e"
  by (cases out) simp_all

lemma remote_attempt_body:
  assumes "wrapped op"
  shows "remote_attempt w (attempt w op)"
proof (cases op)
  case ListTasks
  show ?thesis
    unfolding remote_attempt_def ListTasks
    by (auto simp: get_all_tasks_body_def requests_call_def r_json_def prog_defs Let_def
        sleeps_def http_events_def split: http_outcome.splits option.splits sum.splits)
next
  case (TaskMetadata tid)
  show ?thesis
    unfolding remote_attempt_def TaskMetadata
    by (auto simp: get_task_metadata_body_def requests_call_def r_json_def prog_defs Let_def
        sleeps_def http_events_def split: http_outcome.splits option.splits sum.splits)
next
  case (StartSession tid name data_type)
  show ?thesis
    unfolding remote_attempt_def StartSession
    by (auto simp: start_session_body_def requests_call_def r_json_def prog_defs Let_def
        sleeps_def http_events_def split: http_outcome.splits option.splits sum.splits)
next
  case (SessionMetadata token)
  show ?thesis
    unfolding remote_attempt_def SessionMetadata
    by (auto simp: get_session_metadata_body_def get_session_headers_eq requests_call_def
        r_json_def prog_defs Let_def sleeps_def http_events_def
        split: http_outcome.splits option.splits sum.splits)
next
  case (SeedLabels token)
  with assms show ?thesis by simp
next
  case (SubmitPredictions token predictions)
  show ?thesis
    unfolding remote_attempt_def SubmitPredictions
    by (auto simp: submit_predictions_body_def get_session_headers_eq requests_call_def
        r_json_def prog_defs Let_def sleeps_def http_events_def
        split: http_outcome.splits option.splits sum.splits)
next
  case (RequestLabels token items)
  show ?thesis
    unfolding remote_attempt_def RequestLabels
    by (auto simp: request_labels_body_def get_session_headers_eq requests_call_def
        r_json_def prog_defs Let_def sleeps_def http_events_def
        split: http_outcome.splits option.splits sum.splits)
qed

lemma call_op_retry:
  "wrapped op \<Longrightarrow> call_op w op = retry conn_or_timeout 4 3 2 (attempt w op)"
  by (cases op)
    (simp_all add: get_all_tasks_def get_task_metadata_def start_session_def
      get_session_metadata_def submit_predictions_def request_labels_def)

text \<open>After \<open>k\<close> failed attempts, with tries to spare, the next attempt decides.\<close>

lemma retry_loop_after_failures:
  assumes f: "remote_attempt w f"
  shows "int k < n \<Longrightarrow> \<forall>j<k. transient (http w (clock s + j))
    \<Longrightarrow> fst (f (s\<lparr>clock := clock s + k\<rparr>)) = Inr v
    \<Longrightarrow> fst (retry_loop conn_or_timeout b f n d s) = Inr v
      \<and> sleeps (trace (snd (retry_loop conn_or_timeout b f n d s)))
          = sleeps (trace s) @ delays k d b
      \<and> length (http_events (trace (snd (retry_loop conn_or_timeout b f n d s))))
          = length (http_events (trace s)) + k + 1"
proof (induction k arbitrary: s n d)
  case 0
  from "0.prems"(3) have ok: "fst (f s) = Inr v" by simp
  then have "retry_loop conn_or_timeout b f n d s = f s"
    by (cases "f s") (simp add: retry_loop.simps [of _ b f n d s])
  moreover from f have "sleeps (trace (snd (f s))) = sleeps (trace s)
      \<and> length (http_events (trace (snd (f s)))) = Suc (length (http_events (trace s)))"
    unfolding remote_attempt_def by blast
  ultimately show ?case
    using ok by simp
next
  case (Suc k)
  obtain r s1 where fs: "f s = (r, s1)" by (cases "f s")
  from Suc.prems(2) have "transient (http w (clock s + 0))"
    by blast
  then have "transient (http w (clock s))"
    by simp
  then obtain e where e: "raised (http w (clock s)) = Some e" and chk: "conn_or_timeout e"
    by (blast dest: transient_raised)
  from f have "clock (snd (f s)) = Suc (clock s)
      \<and> sleeps (trace (snd (f s))) = sleeps (trace s)
      \<and> length (http_events (trace (snd (f s)))) = Suc (length (http_events (trace s)))
      \<and> (\<forall>e. raised (http w (clock s)) = Some e \<longrightarrow> fst (f s) = Inl e)"
    unfolding remote_attempt_def by blast
  with e fs have r: "r = Inl e" and s1: "clock s1 = Suc (clock s)"
    "sleeps (trace s1) = sleeps (trace s)"
    "length (http_events (trace s1)) = Suc (length (http_events (trace s)))"
    by simp_all
  let ?s2 = "s1\<lparr>trace := trace s1 @ [Log WARNING (Retrying e d), Sleep d]\<rparr>"
  from Suc.prems(1) have n: "1 < n" by simp
  with fs r chk have step: "retry_loop conn_or_timeout b f n d s
      = retry_loop conn_or_timeout b f (n - 1) (d * b) ?s2"
    by (simp add: retry_loop.simps [of _ b f n d s])
  from Suc.prems(1) have 1: "int k < n - 1" by simp
  have 2: "\<forall>j<k. transient (http w (clock ?s2 + j))"
  proof (intro allI impI)
    fix j assume "j < k"
    then have "Suc j < Suc k" by simp
    with Suc.prems(2) have "transient (http w (clock s + Suc j))" by blast
    with s1 show "transient (http w (clock ?s2 + j))" by simp
  qed
  from s1 have "clock (?s2\<lparr>clock := clock ?s2 + k\<rparr>) = clock (s\<lparr>clock := clock s + Suc k\<rparr>)"
    by simp
  with f
  have "fst (f (?s2\<lparr>clock := clock ?s2 + k\<rparr>)) = fst (f (s\<lparr>clock := clock s + Suc k\<rparr>))"
    unfolding remote_attempt_def by blast
  with Suc.prems(3) have 3: "fst (f (?s2\<lparr>clock := clock ?s2 + k\<rparr>)) = Inr v"
    by simp
  from Suc.IH [OF 1 2 3] step s1 show ?case
    by (simp add: sleeps_def http_events_def)
qed

text \<open>When every attempt fails, the exception of the last one comes out.\<close>

lemma retry_loop_all_fail:
  assumes f: "remote_attempt w f"
  shows "n = int (Suc m) \<Longrightarrow> \<forall>j<Suc m. transient (http w (clock s + j))
    \<Longrightarrow> raised (http w (clock s + m)) = Some (the (raised (http w (clock s + m))))
      \<and> fst (retry_loop conn_or_timeout b f n d s) = Inl (the (raised (http w (clock s + m))))
      \<and> sleeps (trace (snd (retry_loop conn_or_timeout b f n d s)))
          = sleeps (trace s) @ delays m d b
      \<and> length (http_events (trace (snd (retry_loop conn_or_timeout b f n d s))))
          = length (http_events (trace s)) + Suc m"
proof (induction m arbitrary: s n d)
  case 0
  then have "transient (http w (clock s))" by simp
  then obtain e where e: "raised (http w (clock s)) = Some e"
    by (blast dest: transient_raised)
  from "0.prems"(1) have "retry_loop conn_or_timeout b f n d s = f s"
    by (simp add: retry_loop.simps [of _ b f 1 d s])
  moreover from f have "sleeps (trace (snd (f s))) = sleeps (trace s)
      \<and> length (http_events (trace (snd (f s)))) = Suc (length (http_events (trace s)))
      \<and> (\<forall>e. raised (http w (clock s)) = Some e \<longrightarrow> fst (f s) = Inl e)"
    unfolding remote_attempt_def by blast
  ultimately show ?case
    using e by simp
next
  case (Suc m)
  obtain r s1 where fs: "f s = (r, s1)" by (cases "f s")
  from Suc.prems(2) have "transient (http w (clock s + 0))"
    by blast
  then have "transient (http w (clock s))"
    by simp
  then obtain e where e: "raised (http w (clock s)) = Some e" and chk: "conn_or_timeout e"
    by (blast dest: transient_raised)
  from f have "clock (snd (f s)) = Suc (clock s)
      \<and> sleeps (trace (snd (f s))) = sleeps (trace s)
      \<and> length (http_events (trace (snd (f s)))) = Suc (length (http_events (trace s)))
      \<and> (\<forall>e. raised (http w (clock s)) = Some e \<longrightarrow> fst (f s) = Inl e)"
    unfolding remote_attempt_def by blast
  with e fs have r: "r = Inl e" and s1: "clock s1 = Suc (clock s)"
    "sleeps (trace s1) = sleeps (trace s)"
    "length (http_events (trace s1)) = Suc (length (http_events (trace s)))"
    by simp_all
  let ?s2 = "s1\<lparr>trace := trace s1 @ [Log WARNING (Retrying e d), Sleep d]\<rparr>"
  from Suc.prems(1) have n: "1 < n" by simp
  with fs r chk have step: "retry_loop conn_or_timeout b f n d s
      = retry_loop conn_or_timeout b f (n - 1) (d * b) ?s2"
    by (simp add: retry_loop.simps [of _ b f n d s])
  from Suc.prems(1) have 1: "n - 1 = int (Suc m)" by simp
  have 2: "\<forall>j<Suc m. transient (http w (clock ?s2 + j))"
  proof (intro allI impI)
    fix j assume "j < Suc m"
    then have "Suc j < Suc (Suc m)" by simp
    with Suc.prems(2) have "transient (http w (clock s + Suc j))" by blast
    with s1 show "transient (http w (clock ?s2 + j))" by simp
  qed
  from s1 have c: "clock ?s2 + m = clock s + Suc m" by simp
  from Suc.IH [OF 1 2] step s1 c show ?case
    by (simp add: sleeps_def http_events_def)
qed

lemma delays_policy: "k \<le> 3 \<Longrightarrow> delays k 3 2 = take k [3, 6, 12]"
proof -
  assume "k \<le> 3"
  then consider "k = 0" | "k = 1" | "k = 2" | "k = 3"
    by linarith
  then show ?thesis
    by cases (simp_all add: numeral_2_eq_2 numeral_3_eq_3)
qed

text \<open>
  Claim C1. For every decorated operation of the client: if the next \<open>k \<le> 3\<close> exchanges
  fail with a connection error or a timeout and the attempt that meets the exchange after
  them returns \<open>v\<close>, the call returns \<open>v\<close>, has slept the first \<open>k\<close> of the delays 3, 6
  and 12 and has made \<open>k + 1\<close> exchanges, four at most. If the next four exchanges fail
  so, the call raises the exception of the fourth failure, has slept 3, 6 and 12 and has
  made four exchanges.
\<close>

theorem retry_policy:
  assumes "wrapped op"
  shows "(k \<le> 3 \<and> (\<forall>j<k. transient (http w (clock s + j)))
          \<and> fst (attempt w op (s\<lparr>clock := clock s + k\<rparr>)) = Inr v \<longrightarrow>
            fst (call_op w op s) = Inr v
          \<and> sleeps (trace (snd (call_op w op s))) = sleeps (trace s) @ take k [3, 6, 12]
          \<and> length (http_events (trace (snd (call_op w op s))))
              = length (http_events (trace s)) + k + 1)
    \<and> ((\<forall>j<4. transient (http w (clock s + j))) \<longrightarrow>
            raised (http w (clock s + 3)) = Some (the (raised (http w (clock s + 3))))
          \<and> fst (call_op w op s) = Inl (the (raised (http w (clock s + 3))))
          \<and> sleeps (trace (snd (call_op w op s))) = sleeps (trace s) @ [3, 6, 12]
          \<and> length (http_events (trace (snd (call_op w op s))))
              = length (http_events (trace s)) + 4)"
proof -
  note f = remote_attempt_body [OF assms, of w]
  have one: "fst (call_op w op s) = Inr v
      \<and> sleeps (trace (snd (call_op w op s))) = sleeps (trace s) @ take k [3, 6, 12]
      \<and> length (http_events (trace (snd (call_op w op s))))
          = length (http_events (trace s)) + k + 1"
    if "k \<le> 3" "\<forall>j<k. transient (http w (clock s + j))"
      "fst (attempt w op (s\<lparr>clock := clock s + k\<rparr>)) = Inr v"
    using retry_loop_after_failures [OF f, of k 4 s v 2 3] that
    by (simp add: call_op_retry [OF assms] retry_def delays_policy)
  have two: "raised (http w (clock s + 3)) = Some (the (raised (http w (clock s + 3))))
      \<and> fst (call_op w op s) = Inl (the (raised (http w (clock s + 3))))
      \<and> sleeps (trace (snd (call_op w op s))) = sleeps (trace s) @ [3, 6, 12]
      \<and> length (http_events (trace (snd (call_op w op s))))
          = length (http_events (trace s)) + 4"
    if "\<forall>j<4. transient (http w (clock s + j))"
    using retry_loop_all_fail [OF f, of 4 3 s 2 3] that delays_policy [of 3]
    by (simp add: call_op_retry [OF assms] retry_def numeral_3_eq_3)
  from one two show ?thesis by blast
qed


theorem retry_policy_witness:
  "wrapped (SessionMetadata (JStr ''tok''))
   \<and> transient (http flaky_world (clock demo_state + 0))
   \<and> transient (http flaky_world (clock demo_state + 1))
   \<and> transient (http flaky_world (clock demo_state + 2))
   \<and> fst (attempt flaky_world (SessionMetadata (JStr ''tok''))
            (demo_state\<lparr>clock := clock demo_state + 3\<rparr>)) = Inr demo_metadata
   \<and> fst (call_op flaky_world (SessionMetadata (JStr ''tok'')) demo_state) = Inr demo_metadata
   \<and> sleeps (trace (snd (call_op flaky_world (SessionMetadata (JStr ''tok'')) demo_state)))
       = [3, 6, 12]
   \<and> length (http_events
        (trace (snd (call_op flaky_world (SessionMetadata (JStr ''tok'')) demo_state)))) = 4
   \<and> transient (http dead_world (clock demo_state + 0))
   \<and> transient (http dead_world (clock demo_state + 1))
   \<and> transient (http dead_world (clock demo_state + 2))
   \<and> transient (http dead_world (clock demo_state + 3))
   \<and> fst (call_op dead_world (SessionMetadata (JStr ''tok'')) demo_state)
       = Inl (Timeout ''slow'')
   \<and> sleeps (trace (snd (call_op dead_world (SessionMetadata (JStr ''tok'')) demo_state)))
       = [3, 6, 12]
   \<and> length (http_events
        (trace (snd (call_op dead_world (SessionMetadata (JStr ''tok'')) demo_state)))) = 4"
proof -
  have flaky: "\<forall>j<3. transient (http flaky_world (clock demo_state + j))"
    by (auto simp: flaky_world_def demo_state_def)
  have answer: "fst (attempt flaky_world (SessionMetadata (JStr ''tok''))
      (demo_state\<lparr>clock := clock demo_state + 3\<rparr>)) = Inr demo_metadata"
    by (simp add: get_session_metadata_body_def get_session_headers_eq requests_call_def
        r_json_def prog_defs flaky_world_def service_body_def demo_state_def demo_metadata_def)
  have dead: "\<forall>j<4. transient (http dead_world (clock demo_state + j))"
    by (auto simp: dead_world_def demo_state_def)
  have last: "raised (http dead_world (clock demo_state + 3)) = Some (Timeout ''slow'')"
    by (simp add: dead_world_def demo_state_def)
  from retry_policy [of "SessionMetadata (JStr ''tok'')" 3 flaky_world demo_state demo_metadata]
    retry_policy [of "SessionMetadata (JStr ''tok'')" 0 dead_world demo_state demo_metadata]
    flaky answer dead last
  show ?thesis
    by (simp add: sleeps_def http_events_def demo_state_def flaky_world_def dead_world_def)
qed

end
